theory Spec2Isabelle
  imports Complex_Main
begin

section \<open>The slideshow renderer of \<^verbatim>\<open>src/app/page.tsx\<close>\<close>

text \<open>
  The page component turns a list of pictures into a video: \<^verbatim>\<open>createVideo\<close> starts a
  \<^verbatim>\<open>MediaRecorder\<close> on a canvas and calls \<^verbatim>\<open>renderFrame\<close>, which samples the clock, decides
  which picture or pair of pictures is visible, paints the canvas through
  \<^verbatim>\<open>drawImageCover\<close> and re-arms itself with \<^verbatim>\<open>setTimeout\<close> until the total duration
  has elapsed.

  JavaScript numbers are rationals (\<^typ>\<open>rat\<close>): every number the code computes comes
  from integers (picture sizes, milliseconds, the canvas size) and the duration field by
  \<open>+\<close>, \<open>-\<close>, \<open>*\<close>, \<open>/\<close>, \<open>%\<close> and \<open>Math.floor\<close>. The model comes in two layers. The first
  computes with exact arithmetic. The second (the definitions whose names end in
  \<open>64\<close>) rounds the result of every operation to the nearest double, as the code does;
  it shows what the code computes where rounding decides. Where the JavaScript arithmetic leaves the finite numbers (a division by
  zero, giving \<open>Infinity\<close> or \<open>NaN\<close>) the model has an explicit branch, since HOL's
  \<open>x / 0 = 0\<close> is not what the code computes.

  The canvas is modelled by the colour it shows at every point, with exact channel
  values: a drawing call composites its source over the points it covers. Resampling
  and the rounding of channels to bytes are not modelled.
\<close>

subsection \<open>Number operations of JavaScript\<close>

text \<open>\<^verbatim>\<open>a % b\<close> truncates the quotient towards zero, so the remainder has the sign of
  the dividend. The definitions are for a divisor other than zero (\<open>NaN\<close> otherwise).\<close>

definition jsTrunc :: "rat \<Rightarrow> int" where
  "jsTrunc x = (if x < 0 then \<lceil>x\<rceil> else \<lfloor>x\<rfloor>)"

definition jsRem :: "rat \<Rightarrow> rat \<Rightarrow> rat" where
  "jsRem a b = a - b * of_int (jsTrunc (a / b))"

definition jsRemInt :: "int \<Rightarrow> int \<Rightarrow> int" where
  "jsRemInt a b = sgn a * (\<bar>a\<bar> mod \<bar>b\<bar>)"

subsection \<open>Cover fitting (\<^verbatim>\<open>drawImageCover\<close>, lines 169-193)\<close>

record drawRect =
  drawWidth :: rat
  drawHeight :: rat
  offsetX :: rat
  offsetY :: rat

text \<open>The rectangle that \<^verbatim>\<open>drawImageCover\<close> hands to \<^verbatim>\<open>ctx.drawImage\<close>, from the picture's
  size and the canvas size. The result is \<open>None\<close> when one of the three divisors
  \<^verbatim>\<open>img.height\<close>, \<^verbatim>\<open>canvasHeight\<close>, \<^verbatim>\<open>img.width\<close> is zero. The definition is meant for a
  canvas of positive width and height, as the code's canvas of 1920 by 1080 is: there
  the JavaScript rectangle has a component that is \<open>Infinity\<close> or \<open>NaN\<close> exactly when
  the picture's width or height is zero.\<close>

definition coverRect :: "rat \<Rightarrow> rat \<Rightarrow> rat \<Rightarrow> rat \<Rightarrow> drawRect option" where
  "coverRect imgWidth imgHeight canvasWidth canvasHeight =
     (if imgHeight = 0 \<or> canvasHeight = 0 \<or> imgWidth = 0 then None
      else
        let imgRatio = imgWidth / imgHeight;
            canvasRatio = canvasWidth / canvasHeight
        in if imgRatio > canvasRatio then
             let dh = canvasHeight;
                 dw = imgWidth * (canvasHeight / imgHeight)
             in Some \<lparr>drawWidth = dw, drawHeight = dh,
                      offsetX = (canvasWidth - dw) / 2, offsetY = 0\<rparr>
           else
             let dw = canvasWidth;
                 dh = imgHeight * (canvasWidth / imgWidth)
             in Some \<lparr>drawWidth = dw, drawHeight = dh,
                      offsetX = 0, offsetY = (canvasHeight - dh) / 2\<rparr>)"

text \<open>The fitter as the specification words it (section 4.1), for comparison with
  \<open>coverRect\<close>.\<close>

definition spec_fit :: "rat \<Rightarrow> rat \<Rightarrow> rat \<Rightarrow> rat \<Rightarrow> drawRect" where
  "spec_fit pictureWidth pictureHeight frameWidth frameHeight =
     (if pictureWidth / pictureHeight > frameWidth / frameHeight then
        \<lparr>drawWidth = pictureWidth * (frameHeight / pictureHeight),
         drawHeight = frameHeight,
         offsetX = (frameWidth - pictureWidth * (frameHeight / pictureHeight)) / 2,
         offsetY = 0\<rparr>
      else
        \<lparr>drawWidth = frameWidth,
         drawHeight = pictureHeight * (frameWidth / pictureWidth),
         offsetX = 0,
         offsetY = (frameHeight - pictureHeight * (frameWidth / pictureWidth)) / 2\<rparr>)"

text \<open>A rectangle covers the frame when the frame lies inside it.\<close>

definition coversFrame :: "drawRect \<Rightarrow> rat \<Rightarrow> rat \<Rightarrow> bool" where
  "coversFrame r frameWidth frameHeight \<longleftrightarrow>
     offsetX r \<le> 0 \<and> frameWidth \<le> offsetX r + drawWidth r \<and>
     offsetY r \<le> 0 \<and> frameHeight \<le> offsetY r + drawHeight r"

subsection \<open>Pictures and the 2D context\<close>

text \<open>A colour is a triple of channel values. A decoded picture (\<^verbatim>\<open>HTMLImageElement\<close>) has
  its size and, at every point of the unit square, a colour and an opacity.\<close>

type_synonym rgb = "rat \<times> rat \<times> rat"

record picture =
  width :: rat
  height :: rat
  texel :: "rat \<Rightarrow> rat \<Rightarrow> rgb \<times> rat"

definition black :: rgb where
  "black = (0, 0, 0)"

text \<open>The part of \<^verbatim>\<open>CanvasRenderingContext2D\<close> the code uses. The drawing state holds
  the fill colour, \<^verbatim>\<open>globalAlpha\<close> and the transform, which the code only ever scales and
  translates: a user point \<open>(u, v)\<close> lands on the canvas point
  \<open>(scaleX * u + shiftX, scaleY * v + shiftY)\<close>. \<^verbatim>\<open>save\<close> and \<^verbatim>\<open>restore\<close> push and pop
  the drawing state. The bitmap gives the colour at every sample point of the canvas;
  the canvas is opaque, as it is once \<^verbatim>\<open>renderFrame\<close> has filled it with black.\<close>

record drawState =
  fillStyle :: rgb
  globalAlpha :: rat
  scaleX :: rat
  scaleY :: rat
  shiftX :: rat
  shiftY :: rat

record ctx2d =
  cur :: drawState
  stack :: "drawState list"
  bitmap :: "rat \<Rightarrow> rat \<Rightarrow> rgb"

datatype error = TypeError | NotSupportedError | InvalidStateError | ImageLoadError

fun andThen :: "error + 'a \<Rightarrow> ('a \<Rightarrow> error + 'b) \<Rightarrow> error + 'b" where
  "andThen (Inl e) f = Inl e"
| "andThen (Inr x) f = f x"

text \<open>Source-over compositing of a colour \<open>c\<close> with opacity \<open>a\<close> onto an opaque
  colour.\<close>

fun mix :: "rat \<Rightarrow> rgb \<Rightarrow> rgb \<Rightarrow> rgb" where
  "mix a (r, g, b) (r', g', b') =
     (a * r + (1 - a) * r', a * g + (1 - a) * g', a * b + (1 - a) * b')"

text \<open>Painting a source given in user space: every canvas point is mapped back through
  the transform; where the source has a colour there, it is composited with the
  source's opacity times \<^verbatim>\<open>globalAlpha\<close>. Nothing is painted under a transform that
  cannot be inverted.\<close>

definition paint :: "ctx2d \<Rightarrow> (rat \<Rightarrow> rat \<Rightarrow> (rgb \<times> rat) option) \<Rightarrow> ctx2d" where
  "paint ctx src = ctx\<lparr>bitmap := (\<lambda>x y.
     if scaleX (cur ctx) = 0 \<or> scaleY (cur ctx) = 0 then bitmap ctx x y
     else case src ((x - shiftX (cur ctx)) / scaleX (cur ctx))
                   ((y - shiftY (cur ctx)) / scaleY (cur ctx)) of
            None \<Rightarrow> bitmap ctx x y
          | Some (c, a) \<Rightarrow> mix (a * globalAlpha (cur ctx)) c (bitmap ctx x y))\<rparr>"

definition inRect :: "rat \<Rightarrow> rat \<Rightarrow> rat \<Rightarrow> rat \<Rightarrow> rat \<Rightarrow> rat \<Rightarrow> bool" where
  "inRect u v x y w h \<longleftrightarrow> x \<le> u \<and> u < x + w \<and> y \<le> v \<and> v < y + h"

definition fillRect :: "ctx2d \<Rightarrow> rat \<Rightarrow> rat \<Rightarrow> rat \<Rightarrow> rat \<Rightarrow> ctx2d" where
  "fillRect ctx x y w h =
     paint ctx (\<lambda>u v. if inRect u v x y w h then Some (fillStyle (cur ctx), 1) else None)"

text \<open>\<^verbatim>\<open>ctx.drawImage(img, dx, dy, dWidth, dHeight)\<close> stretches the picture over the
  destination rectangle. The code only passes a positive width and height.\<close>

definition drawImage :: "ctx2d \<Rightarrow> picture \<Rightarrow> rat \<Rightarrow> rat \<Rightarrow> rat \<Rightarrow> rat \<Rightarrow> ctx2d" where
  "drawImage ctx img dx dy dWidth dHeight =
     paint ctx (\<lambda>u v. if inRect u v dx dy dWidth dHeight
                      then Some (texel img ((u - dx) / dWidth) ((v - dy) / dHeight))
                      else None)"

definition setFillStyle :: "ctx2d \<Rightarrow> rgb \<Rightarrow> ctx2d" where
  "setFillStyle ctx c = ctx\<lparr>cur := (cur ctx)\<lparr>fillStyle := c\<rparr>\<rparr>"

text \<open>The setter of \<^verbatim>\<open>globalAlpha\<close> ignores a value outside \<open>[0, 1]\<close>.\<close>

definition setGlobalAlpha :: "ctx2d \<Rightarrow> rat \<Rightarrow> ctx2d" where
  "setGlobalAlpha ctx a =
     (if 0 \<le> a \<and> a \<le> 1 then ctx\<lparr>cur := (cur ctx)\<lparr>globalAlpha := a\<rparr>\<rparr> else ctx)"

definition save :: "ctx2d \<Rightarrow> ctx2d" where
  "save ctx = ctx\<lparr>stack := cur ctx # stack ctx\<rparr>"

definition restore :: "ctx2d \<Rightarrow> ctx2d" where
  "restore ctx = (case stack ctx of [] \<Rightarrow> ctx | d # ds \<Rightarrow> ctx\<lparr>cur := d, stack := ds\<rparr>)"

definition translate :: "ctx2d \<Rightarrow> rat \<Rightarrow> rat \<Rightarrow> ctx2d" where
  "translate ctx dx dy =
     ctx\<lparr>cur := (cur ctx)\<lparr>shiftX := shiftX (cur ctx) + scaleX (cur ctx) * dx,
                          shiftY := shiftY (cur ctx) + scaleY (cur ctx) * dy\<rparr>\<rparr>"

definition scale :: "ctx2d \<Rightarrow> rat \<Rightarrow> rat \<Rightarrow> ctx2d" where
  "scale ctx a b =
     ctx\<lparr>cur := (cur ctx)\<lparr>scaleX := scaleX (cur ctx) * a, scaleY := scaleY (cur ctx) * b\<rparr>\<rparr>"

text \<open>\<^verbatim>\<open>drawImageCover\<close> (lines 169-193) on a picture: the rectangle is computed and
  handed to \<^verbatim>\<open>drawImage\<close>, which returns without drawing when an argument is not
  finite (the case \<open>None\<close>).\<close>

definition drawCover :: "ctx2d \<Rightarrow> picture \<Rightarrow> rat \<Rightarrow> rat \<Rightarrow> ctx2d" where
  "drawCover ctx img canvasWidth canvasHeight =
     (case coverRect (width img) (height img) canvasWidth canvasHeight of
        None \<Rightarrow> ctx
      | Some r \<Rightarrow> drawImage ctx img (offsetX r) (offsetY r) (drawWidth r) (drawHeight r))"

text \<open>The picture argument is \<open>None\<close> for \<^verbatim>\<open>undefined\<close>, which an array read out of range
  gives; reading \<^verbatim>\<open>img.width\<close> then throws a \<^verbatim>\<open>TypeError\<close>.\<close>

definition drawImageCover ::
  "ctx2d \<Rightarrow> picture option \<Rightarrow> rat \<Rightarrow> rat \<Rightarrow> error + ctx2d" where
  "drawImageCover ctx img canvasWidth canvasHeight =
     (case img of
        None \<Rightarrow> Inl TypeError
      | Some i \<Rightarrow> Inr (drawCover ctx i canvasWidth canvasHeight))"

subsection \<open>The timeline (\<^verbatim>\<open>createVideo\<close>, lines 88-92, and \<^verbatim>\<open>renderFrame\<close>, lines 118-120)\<close>

text \<open>A program: the decoded pictures \<^verbatim>\<open>loadedImages\<close> (one per entry of \<^verbatim>\<open>images\<close>, so
  \<^verbatim>\<open>images.length\<close> is the length of this list), the \<^verbatim>\<open>duration\<close> field in seconds and
  the \<^verbatim>\<open>transition\<close> string.\<close>

record program =
  loadedImages :: "picture list"
  duration :: rat
  transition :: string

definition canvas_width :: rat where
  "canvas_width = 1920"

definition canvas_height :: rat where
  "canvas_height = 1080"

definition totalDuration :: "program \<Rightarrow> rat" where
  "totalDuration P = of_nat (length (loadedImages P)) * duration P * 1000"

definition imageDuration :: "program \<Rightarrow> rat" where
  "imageDuration P = duration P * 1000"

definition transitionDuration :: rat where
  "transitionDuration = 500"

text \<open>The three values \<^verbatim>\<open>renderFrame\<close> computes from the sampled time
  \<^verbatim>\<open>currentTime = Date.now() - startTime\<close>, an integer number of milliseconds. They are
  the JavaScript values when \<open>imageDuration P \<noteq> 0\<close> (and, for the next index, when
  there is a picture; with none, every array read is \<^verbatim>\<open>undefined\<close> whatever the index).\<close>

definition currentIndex :: "program \<Rightarrow> int \<Rightarrow> int" where
  "currentIndex P currentTime = \<lfloor>of_int currentTime / imageDuration P\<rfloor>"

definition nextIndex :: "program \<Rightarrow> int \<Rightarrow> int" where
  "nextIndex P currentTime =
     jsRemInt (currentIndex P currentTime + 1) (int (length (loadedImages P)))"

definition timeInCurrentImage :: "program \<Rightarrow> int \<Rightarrow> rat" where
  "timeInCurrentImage P currentTime = jsRem (of_int currentTime) (imageDuration P)"

definition transitionProgress :: "program \<Rightarrow> int \<Rightarrow> rat" where
  "transitionProgress P currentTime =
     (timeInCurrentImage P currentTime - (imageDuration P - transitionDuration))
       / transitionDuration"

text \<open>An array read: \<^verbatim>\<open>undefined\<close> outside \<open>0 .. length - 1\<close>.\<close>

definition imageAt :: "picture list \<Rightarrow> int \<Rightarrow> picture option" where
  "imageAt imgs i = (if 0 \<le> i \<and> i < int (length imgs) then Some (imgs ! nat i) else None)"

subsection \<open>Compositing a transition (\<^verbatim>\<open>renderFrame\<close>, lines 133-160)\<close>

definition compositeFrame ::
  "ctx2d \<Rightarrow> string \<Rightarrow> picture option \<Rightarrow> picture option \<Rightarrow> rat \<Rightarrow> rat \<Rightarrow> rat
     \<Rightarrow> error + ctx2d" where
  "compositeFrame ctx style currentImg nextImg cw ch progress =
     (if style = ''fade'' then
        andThen (drawImageCover ctx currentImg cw ch) (\<lambda>c1.
        andThen (drawImageCover (setGlobalAlpha c1 progress) nextImg cw ch) (\<lambda>c2.
        Inr (setGlobalAlpha c2 1)))
      else if style = ''slide'' then
        let offset = cw * progress in
        andThen (drawImageCover (translate (save ctx) (- offset) 0) currentImg cw ch) (\<lambda>c1.
        andThen (drawImageCover (translate (save (restore c1)) (cw - offset) 0)
                   nextImg cw ch) (\<lambda>c2.
        Inr (restore c2)))
      else if style = ''zoom'' then
        let s = 1 + progress * (3 / 10) in
        andThen (drawImageCover
                   (setGlobalAlpha
                      (translate (scale (translate (save ctx) (cw / 2) (ch / 2)) s s)
                         (- cw / 2) (- ch / 2))
                      (1 - progress))
                   currentImg cw ch) (\<lambda>c1.
        andThen (drawImageCover (setGlobalAlpha (restore c1) progress)
                   nextImg cw ch) (\<lambda>c2.
        Inr (setGlobalAlpha c2 1)))
      else Inr ctx)"

subsection \<open>One frame (\<^verbatim>\<open>renderFrame\<close>, lines 118-161)\<close>

definition clearFrame :: "ctx2d \<Rightarrow> ctx2d" where
  "clearFrame ctx = fillRect (setFillStyle ctx black) 0 0 canvas_width canvas_height"

text \<open>When \<open>imageDuration P = 0\<close> the JavaScript quotient and remainder are \<open>-Infinity\<close>
  and \<open>NaN\<close> (the time is negative then, see \<open>renderFrame\<close>): both array reads give
  \<^verbatim>\<open>undefined\<close> and the comparison with \<open>NaN\<close> is false.\<close>

definition paintFrame :: "program \<Rightarrow> int \<Rightarrow> ctx2d \<Rightarrow> error + ctx2d" where
  "paintFrame P currentTime ctx =
     (let ctx1 = clearFrame ctx;
          currentImg = (if imageDuration P = 0 then None
                        else imageAt (loadedImages P) (currentIndex P currentTime));
          nextImg = (if imageDuration P = 0 then None
                     else imageAt (loadedImages P) (nextIndex P currentTime))
      in if imageDuration P \<noteq> 0 \<and>
            timeInCurrentImage P currentTime < imageDuration P - transitionDuration
         then drawImageCover ctx1 currentImg canvas_width canvas_height
         else compositeFrame ctx1 (transition P) currentImg nextImg
                canvas_width canvas_height (transitionProgress P currentTime))"

subsection \<open>The render loop (\<^verbatim>\<open>renderFrame\<close>, lines 110-166)\<close>

text \<open>The state of a running session: the context, the canvas contents after each
  completed call of \<^verbatim>\<open>renderFrame\<close> (what the captured stream shows), the number of calls
  of \<^verbatim>\<open>mediaRecorder.stop()\<close>, whether a call of \<^verbatim>\<open>renderFrame\<close> is due (the first call or
  an armed \<^verbatim>\<open>setTimeout\<close>), and an exception that escaped \<^verbatim>\<open>renderFrame\<close>. After such an
  exception no call is armed any more; what the half painted canvas shows is not
  recorded.\<close>

record session =
  canvas :: ctx2d
  frames :: "(rat \<Rightarrow> rat \<Rightarrow> rgb) list"
  stopCalls :: nat
  pending :: bool
  uncaught :: "error option"

definition renderFrame :: "program \<Rightarrow> int \<Rightarrow> session \<Rightarrow> session" where
  "renderFrame P currentTime s =
     (if of_int currentTime \<ge> totalDuration P
      then s\<lparr>stopCalls := Suc (stopCalls s), pending := False\<rparr>
      else case paintFrame P currentTime (canvas s) of
             Inl e \<Rightarrow> s\<lparr>pending := False, uncaught := Some e\<rparr>
           | Inr c \<Rightarrow> s\<lparr>canvas := c, frames := frames s @ [bitmap c], pending := True\<rparr>)"

text \<open>The loop, driven by the times \<^verbatim>\<open>Date.now() - startTime\<close> sampled at the successive
  calls: each call that is due takes the next sample.\<close>

fun runTicks :: "program \<Rightarrow> int list \<Rightarrow> session \<Rightarrow> session" where
  "runTicks P [] s = s"
| "runTicks P (t # ts) s = (if pending s then runTicks P ts (renderFrame P t s) else s)"

subsection \<open>A session (\<^verbatim>\<open>createVideo\<close>, lines 53-167)\<close>

text \<open>The context of a canvas whose width has just been set: default drawing state,
  empty stack.\<close>

definition freshContext :: ctx2d where
  "freshContext =
     \<lparr>cur = \<lparr>fillStyle = black, globalAlpha = 1, scaleX = 1, scaleY = 1,
             shiftX = 0, shiftY = 0\<rparr>,
      stack = [], bitmap = (\<lambda>x y. black)\<rparr>"

definition startSession :: session where
  "startSession =
     \<lparr>canvas = freshContext, frames = [], stopCalls = 0, pending = True, uncaught = None\<rparr>"

text \<open>What the browser does around the code: whether the canvas element and its 2D
  context exist, whether \<^verbatim>\<open>new MediaRecorder\<close> and \<^verbatim>\<open>mediaRecorder.start()\<close> throw,
  whether every picture decodes, the times sampled by the successive calls of
  \<^verbatim>\<open>renderFrame\<close>, and the sizes of the chunks the recorder delivers to
  \<^verbatim>\<open>ondataavailable\<close> before \<^verbatim>\<open>onstop\<close> runs.\<close>

record environment =
  canvasMounted :: bool
  context2d :: bool
  recorderCtor :: "error option"
  recorderStart :: "error option"
  imagesDecode :: bool
  clock :: "int list"
  recorded :: "nat list"

text \<open>The component state the session writes. \<^verbatim>\<open>videoUrl\<close> is \<open>None\<close> for the empty
  string and \<open>Some parts\<close> for the object URL of a blob built from chunks of these
  sizes.

  \<^verbatim>\<open>createVideo\<close> returns that state together with the exception that escaped, if any.
  Once \<^verbatim>\<open>mediaRecorder.stop()\<close> has been called, \<^verbatim>\<open>onstop\<close> builds the blob from the chunks of
  positive size, publishes its URL and resets \<^verbatim>\<open>isCreating\<close>. Without a stop (the samples
  run out, or \<^verbatim>\<open>renderFrame\<close> threw) the state stays as it was set at the start.\<close>

record ui =
  isCreating :: bool
  videoUrl :: "nat list option"

definition createVideo :: "environment \<Rightarrow> program \<Rightarrow> ui \<Rightarrow> ui \<times> error option" where
  "createVideo env P u =
     (if loadedImages P = [] \<or> \<not> canvasMounted env then (u, None)
      else
        let u1 = u\<lparr>isCreating := True, videoUrl := None\<rparr>
        in if \<not> context2d env then (u1, None)
           else case recorderCtor env of
             Some e \<Rightarrow> (u1, Some e)
           | None \<Rightarrow>
              (case recorderStart env of
                 Some e \<Rightarrow> (u1, Some e)
               | None \<Rightarrow>
                  if \<not> imagesDecode env then (u1, Some ImageLoadError)
                  else
                    let s = runTicks P (clock env) startSession
                    in if 0 < stopCalls s
                       then (u1\<lparr>videoUrl := Some (filter (\<lambda>n. 0 < n) (recorded env)),
                                isCreating := False\<rparr>, None)
                       else (u1, uncaught s)))"

text \<open>What the page shows for a component state: the loading line while
  \<^verbatim>\<open>isCreating\<close>, the finished video with its download button once \<^verbatim>\<open>videoUrl\<close> is not
  empty.\<close>

definition showsLoading :: "ui \<Rightarrow> bool" where
  "showsLoading u \<longleftrightarrow> isCreating u"

definition showsVideo :: "ui \<Rightarrow> bool" where
  "showsVideo u \<longleftrightarrow> videoUrl u \<noteq> None"

subsection \<open>The clamp of the specification (section 7)\<close>


subsection \<open>Rounding to doubles\<close>

text \<open>Every arithmetic operation of the code returns the double nearest to the exact
  result, a tie going to the even significand. \<open>fl\<close> is that rounding for binary64: a
  significand of 53 bits, scaled by the power of two that \<open>ilog2\<close> finds. The exponent
  range is taken as unbounded: overflow to \<open>Infinity\<close> and gradual underflow are left
  out, which changes nothing for magnitudes between \<open>2^-1022\<close> and \<open>2^1024\<close>.\<close>

function bitLength :: "nat \<Rightarrow> nat" where
  "bitLength n = (if n = 0 then 0 else Suc (bitLength (n div 2)))"
  by pat_completeness auto
termination
  by (relation "measure id") auto

declare bitLength.simps [simp del]

text \<open>The integer \<open>e\<close> with \<open>2^e \<le> x < 2^(e+1)\<close>, for a positive \<open>x\<close>.\<close>

definition ilog2 :: "rat \<Rightarrow> int" where
  "ilog2 x = (if 1 \<le> x then int (bitLength (nat \<lfloor>x\<rfloor>)) - 1
              else - int (bitLength (nat (\<lceil>1 / x\<rceil> - 1))))"

definition pow2 :: "int \<Rightarrow> rat" where
  "pow2 k = (if 0 \<le> k then 2 ^ nat k else 1 / 2 ^ nat (- k))"

definition roundEven :: "rat \<Rightarrow> int" where
  "roundEven m =
     (let f = \<lfloor>m\<rfloor>; d = m - of_int f
      in if d < 1 / 2 then f else if 1 / 2 < d then f + 1
         else if even f then f else f + 1)"

definition fl :: "rat \<Rightarrow> rat" where
  "fl x = (if x = 0 then 0
           else let u = pow2 (ilog2 \<bar>x\<bar> - 52) in of_int (roundEven (x / u)) * u)"


subsection \<open>The timeline and the cover rectangle in doubles\<close>

text \<open>The values of \<^verbatim>\<open>createVideo\<close> (lines 88-92) and \<^verbatim>\<open>renderFrame\<close> (lines 113-131) with
  the rounding written out after every operation. \<^verbatim>\<open>duration\<close> is a double, the value of
  \<^verbatim>\<open>Number(e.target.value)\<close>; \<^verbatim>\<open>images.length * duration * 1000\<close> is evaluated from the left.
  \<^verbatim>\<open>Math.floor\<close> and \<^verbatim>\<open>%\<close> are exact on doubles, and so is the arithmetic of the indices,
  which are small integers. The definitions of the first layer are these with every
  \<open>fl\<close> removed.\<close>

definition totalDuration64 :: "program \<Rightarrow> rat" where
  "totalDuration64 P = fl (fl (of_nat (length (loadedImages P)) * duration P) * 1000)"

definition imageDuration64 :: "program \<Rightarrow> rat" where
  "imageDuration64 P = fl (duration P * 1000)"

definition currentIndex64 :: "program \<Rightarrow> int \<Rightarrow> int" where
  "currentIndex64 P currentTime = \<lfloor>fl (of_int currentTime / imageDuration64 P)\<rfloor>"

definition nextIndex64 :: "program \<Rightarrow> int \<Rightarrow> int" where
  "nextIndex64 P currentTime =
     jsRemInt (currentIndex64 P currentTime + 1) (int (length (loadedImages P)))"

definition timeInCurrentImage64 :: "program \<Rightarrow> int \<Rightarrow> rat" where
  "timeInCurrentImage64 P currentTime = jsRem (of_int currentTime) (imageDuration64 P)"

definition transitionProgress64 :: "program \<Rightarrow> int \<Rightarrow> rat" where
  "transitionProgress64 P currentTime =
     fl (fl (timeInCurrentImage64 P currentTime - fl (imageDuration64 P - transitionDuration))
           / transitionDuration)"

text \<open>One frame and one call of \<^verbatim>\<open>renderFrame\<close> on these values; the drawing calls are
  those of \<open>paintFrame\<close>.\<close>

definition paintFrame64 :: "program \<Rightarrow> int \<Rightarrow> ctx2d \<Rightarrow> error + ctx2d" where
  "paintFrame64 P currentTime ctx =
     (let ctx1 = clearFrame ctx;
          currentImg = (if imageDuration64 P = 0 then None
                        else imageAt (loadedImages P) (currentIndex64 P currentTime));
          nextImg = (if imageDuration64 P = 0 then None
                     else imageAt (loadedImages P) (nextIndex64 P currentTime))
      in if imageDuration64 P \<noteq> 0 \<and>
            timeInCurrentImage64 P currentTime < fl (imageDuration64 P - transitionDuration)
         then drawImageCover ctx1 currentImg canvas_width canvas_height
         else compositeFrame ctx1 (transition P) currentImg nextImg
                canvas_width canvas_height (transitionProgress64 P currentTime))"

definition renderFrame64 :: "program \<Rightarrow> int \<Rightarrow> session \<Rightarrow> session" where
  "renderFrame64 P currentTime s =
     (if of_int currentTime \<ge> totalDuration64 P
      then s\<lparr>stopCalls := Suc (stopCalls s), pending := False\<rparr>
      else case paintFrame64 P currentTime (canvas s) of
             Inl e \<Rightarrow> s\<lparr>pending := False, uncaught := Some e\<rparr>
           | Inr c \<Rightarrow> s\<lparr>canvas := c, frames := frames s @ [bitmap c], pending := True\<rparr>)"

fun runTicks64 :: "program \<Rightarrow> int list \<Rightarrow> session \<Rightarrow> session" where
  "runTicks64 P [] s = s"
| "runTicks64 P (t # ts) s = (if pending s then runTicks64 P ts (renderFrame64 P t s) else s)"


subsection \<open>Comparing frames\<close>

text \<open>Two drawing results show the same frame when both succeed and their bitmaps agree
  at every sample point of the frame.\<close>

definition inFrame :: "rat \<Rightarrow> rat \<Rightarrow> rat \<Rightarrow> rat \<Rightarrow> bool" where
  "inFrame cw ch x y \<longleftrightarrow> 0 \<le> x \<and> x < cw \<and> 0 \<le> y \<and> y < ch"

definition sameFrame :: "rat \<Rightarrow> rat \<Rightarrow> error + ctx2d \<Rightarrow> error + ctx2d \<Rightarrow> bool" where
  "sameFrame cw ch r1 r2 =
     (case r1 of
        Inl e \<Rightarrow> False
      | Inr c1 \<Rightarrow>
          (case r2 of
             Inl e \<Rightarrow> False
           | Inr c2 \<Rightarrow> (\<forall>x y. inFrame cw ch x y \<longrightarrow> bitmap c1 x y = bitmap c2 x y)))"

definition pixelOf :: "error + ctx2d \<Rightarrow> rat \<Rightarrow> rat \<Rightarrow> rgb option" where
  "pixelOf r x y = (case r of Inl e \<Rightarrow> None | Inr c \<Rightarrow> Some (bitmap c x y))"

text \<open>The texel of a picture that lands on the canvas point \<open>(x, y)\<close> when the picture
  is drawn cover-fit in the plain drawing state translated by \<open>dx\<close> to the right, if
  the picture reaches that point.\<close>

definition texelAt ::
  "picture \<Rightarrow> rat \<Rightarrow> rat \<Rightarrow> rat \<Rightarrow> rat \<Rightarrow> rat \<Rightarrow> (rgb \<times> rat) option" where
  "texelAt img cw ch dx x y =
     (case coverRect (width img) (height img) cw ch of
        None \<Rightarrow> None
      | Some r \<Rightarrow>
          if inRect (x - dx) y (offsetX r) (offsetY r) (drawWidth r) (drawHeight r)
          then Some (texel img ((x - dx - offsetX r) / drawWidth r)
                               ((y - offsetY r) / drawHeight r))
          else None)"

text \<open>The picture, drawn cover-fit where it belongs, covers the point with opacity 1.\<close>

definition coversOpaquely :: "picture \<Rightarrow> rat \<Rightarrow> rat \<Rightarrow> rat \<Rightarrow> rat \<Rightarrow> bool" where
  "coversOpaquely img cw ch x y =
     (case texelAt img cw ch 0 x y of None \<Rightarrow> False | Some t \<Rightarrow> snd t = 1)"

text \<open>Compositing the texel, if there is one, leaves the colour \<open>d\<close> as it is: the texel
  is fully transparent or has that colour.\<close>

definition leavesPoint :: "(rgb \<times> rat) option \<Rightarrow> rgb \<Rightarrow> bool" where
  "leavesPoint t d = (case t of None \<Rightarrow> True | Some t \<Rightarrow> snd t = 0 \<or> fst t = d)"

text \<open>The drawing state in which every call of \<^verbatim>\<open>renderFrame\<close> finds the context.\<close>

definition plainState :: "ctx2d \<Rightarrow> bool" where
  "plainState ctx \<longleftrightarrow>
     globalAlpha (cur ctx) = 1 \<and> scaleX (cur ctx) = 1 \<and> scaleY (cur ctx) = 1 \<and>
     shiftX (cur ctx) = 0 \<and> shiftY (cur ctx) = 0"

definition opaque :: "picture \<Rightarrow> bool" where
  "opaque img \<longleftrightarrow> (\<forall>u v. snd (texel img u v) = 1)"

definition solid :: "rat \<Rightarrow> rat \<Rightarrow> rgb \<Rightarrow> picture" where
  "solid w h c = \<lparr>width = w, height = h, texel = (\<lambda>u v. (c, 1))\<rparr>"

subsection \<open>Sample inputs\<close>

text \<open>The scenario of the specification: three pictures, three seconds each, fading.\<close>

definition abc :: "picture \<Rightarrow> picture \<Rightarrow> picture \<Rightarrow> program" where
  "abc A B C = \<lparr>loadedImages = [A, B, C], duration = 3, transition = ''fade''\<rparr>"

definition red :: rgb where
  "red = (1, 0, 0)"

definition blue :: rgb where
  "blue = (0, 0, 1)"

definition redPicture :: picture where
  "redPicture = solid 1920 1080 red"

definition bluePicture :: picture where
  "bluePicture = solid 1920 1080 blue"

text \<open>A panorama, twice as wide as the canvas.\<close>

definition bluePanorama :: picture where
  "bluePanorama = solid 3840 1080 blue"

definition redPanorama :: picture where
  "redPanorama = solid 3840 1080 red"

text \<open>A picture that is half transparent everywhere.\<close>

definition blueGlass :: picture where
  "blueGlass = \<lparr>width = 1920, height = 1080, texel = (\<lambda>u v. (blue, 1 / 2))\<rparr>"


text \<open>A slide show from a picture of the canvas's shape to a panorama.\<close>

definition slideShow :: program where
  "slideShow = \<lparr>loadedImages = [redPicture, bluePanorama], duration = 3,
                 transition = ''slide''\<rparr>"

text \<open>Three pictures shown for 1.1 seconds each: the field holds the double nearest to
  \<open>1.1\<close>.\<close>

definition fractionalShow :: program where
  "fractionalShow = \<lparr>loadedImages = [redPicture, bluePicture, redPicture],
                      duration = fl (11 / 10), transition = ''fade''\<rparr>"

text \<open>A program whose transition is none of the three the page offers.\<close>

definition wipeShow :: program where
  "wipeShow = \<lparr>loadedImages = [redPicture, bluePicture], duration = 3,
                transition = ''wipe''\<rparr>"

definition idleUi :: ui where
  "idleUi = \<lparr>isCreating = False, videoUrl = None\<rparr>"

text \<open>A browser whose recorder starts and stops but delivers no data, and one whose
  \<^verbatim>\<open>MediaRecorder\<close> constructor rejects the format.\<close>

definition quietRecorder :: environment where
  "quietRecorder = \<lparr>canvasMounted = True, context2d = True, recorderCtor = None,
     recorderStart = None, imagesDecode = True, clock = [0, 9000], recorded = []\<rparr>"

definition noRecorder :: environment where
  "noRecorder = \<lparr>canvasMounted = True, context2d = True,
     recorderCtor = Some NotSupportedError, recorderStart = None, imagesDecode = True,
     clock = [0, 9000], recorded = []\<rparr>"

section \<open>Properties\<close>

subsection \<open>Cover fitting\<close>

lemma coverRect_wide:
  assumes "0 < iw" "0 < ih" "0 < cw" "0 < ch" "iw / ih > cw / ch"
  shows "coverRect iw ih cw ch =
    Some \<lparr>drawWidth = iw * (ch / ih), drawHeight = ch,
          offsetX = (cw - iw * (ch / ih)) / 2, offsetY = 0\<rparr>"
  using assms by (simp add: coverRect_def Let_def)

lemma coverRect_tall:
  assumes "0 < iw" "0 < ih" "0 < cw" "0 < ch" "\<not> iw / ih > cw / ch"
  shows "coverRect iw ih cw ch =
    Some \<lparr>drawWidth = cw, drawHeight = ih * (cw / iw),
          offsetX = 0, offsetY = (ch - ih * (cw / iw)) / 2\<rparr>"
  using assms by (simp add: coverRect_def Let_def)

lemma wide_draw_width:
  fixes iw ih cw ch :: rat
  assumes "0 < iw" "0 < ih" "0 < cw" "0 < ch" "iw / ih > cw / ch"
  shows "cw < iw * (ch / ih)"
proof -
  from assms have "cw * ih < iw * ch"
    by (simp add: divide_simps mult.commute)
  then have "cw < iw * ch / ih"
    using \<open>0 < ih\<close> by (simp add: pos_less_divide_eq)
  then show ?thesis by simp
qed

lemma tall_draw_height:
  fixes iw ih cw ch :: rat
  assumes "0 < iw" "0 < ih" "0 < cw" "0 < ch" "\<not> iw / ih > cw / ch"
  shows "ch \<le> ih * (cw / iw)"
proof -
  from assms have "iw * ch \<le> cw * ih"
    by (simp add: divide_simps mult.commute not_less)
  then have "ch * iw \<le> ih * cw"
    by (simp add: mult.commute)
  then have "ch \<le> ih * cw / iw"
    using \<open>0 < iw\<close> by (simp add: pos_le_divide_eq)
  then show ?thesis by simp
qed

lemma centred_covers:
  fixes c d :: rat
  assumes "c \<le> d"
  shows "(c - d) / 2 \<le> 0" and "c \<le> (c - d) / 2 + d"
  using assms by (simp_all add: field_simps)

lemma coverRect_covers:
  assumes "0 < iw" "0 < ih" "0 < cw" "0 < ch"
  shows "\<exists>r. coverRect iw ih cw ch = Some r \<and> coversFrame r cw ch \<and>
             cw \<le> drawWidth r \<and> ch \<le> drawHeight r"
proof (cases "iw / ih > cw / ch")
  case True
  define dw where "dw = iw * (ch / ih)"
  have "cw \<le> dw"
    using wide_draw_width [OF assms True] by (simp add: dw_def)
  moreover have "coverRect iw ih cw ch =
      Some \<lparr>drawWidth = dw, drawHeight = ch, offsetX = (cw - dw) / 2, offsetY = 0\<rparr>"
    using coverRect_wide [OF assms True] by (simp add: dw_def)
  ultimately show ?thesis
    using centred_covers [of cw dw] by (simp add: coversFrame_def)
next
  case False
  define dh where "dh = ih * (cw / iw)"
  have "ch \<le> dh"
    using tall_draw_height [OF assms False] by (simp add: dh_def)
  moreover have "coverRect iw ih cw ch =
      Some \<lparr>drawWidth = cw, drawHeight = dh, offsetX = 0, offsetY = (ch - dh) / 2\<rparr>"
    using coverRect_tall [OF assms False] by (simp add: dh_def)
  ultimately show ?thesis
    using centred_covers [of ch dh] by (simp add: coversFrame_def)
qed

text \<open>Claim C6: for positive inputs the rectangle of \<^verbatim>\<open>drawImageCover\<close> is the one the
  specification's fitter describes: a relatively wider picture gets the frame's height,
  width \<open>pictureWidth * (frameHeight / pictureHeight)\<close>, is centred horizontally and has
  \<open>offsetY = 0\<close>; any other picture gets the frame's width, height
  \<open>pictureHeight * (frameWidth / pictureWidth)\<close>, \<open>offsetX = 0\<close> and is centred
  vertically.\<close>

theorem C6_cover_rect_formula:
  assumes "0 < pictureWidth" "0 < pictureHeight" "0 < frameWidth" "0 < frameHeight"
  shows "coverRect pictureWidth pictureHeight frameWidth frameHeight =
           Some (spec_fit pictureWidth pictureHeight frameWidth frameHeight)"
  using assms by (simp add: coverRect_def spec_fit_def Let_def)

theorem C6_cover_rect_formula_witness:
  "(0::rat) < 1000 \<and> (0::rat) < 2000 \<and> (0::rat) < 1920 \<and> (0::rat) < 1080 \<and>
   coverRect 1000 2000 1920 1080 = Some (spec_fit 1000 2000 1920 1080) \<and>
   spec_fit 1000 2000 1920 1080 =
     \<lparr>drawWidth = 1920, drawHeight = 3840, offsetX = 0, offsetY = - 1380\<rparr>"
  using C6_cover_rect_formula [of 1000 2000 1920 1080]
  by (simp add: spec_fit_def)


subsection \<open>The timeline\<close>



lemma jsRemInt_nonneg:
  assumes "0 \<le> a" "0 < b"
  shows "jsRemInt a b = a mod b"
  using assms by (cases "a = 0") (simp_all add: jsRemInt_def)

lemma running_positive:
  assumes "0 \<le> t" "of_int t < totalDuration P"
  shows "0 < imageDuration P" and "loadedImages P \<noteq> []"
proof -
  have "(0::rat) \<le> of_int t" using assms by simp
  also have "of_int t < of_nat (length (loadedImages P)) * imageDuration P"
    using assms by (simp add: totalDuration_def imageDuration_def mult.assoc)
  finally have *: "(0::rat) < of_nat (length (loadedImages P)) * imageDuration P" .
  then show "loadedImages P \<noteq> []" by auto
  from * show "0 < imageDuration P"
    by (simp add: zero_less_mult_iff)
qed

lemma currentIndex_range:
  assumes "0 \<le> t" "of_int t < totalDuration P"
  shows "0 \<le> currentIndex P t" and "currentIndex P t < int (length (loadedImages P))"
proof -
  have D: "0 < imageDuration P" using running_positive [OF assms] by simp
  show "0 \<le> currentIndex P t"
    using assms D by (simp add: currentIndex_def)
  have "of_int t / imageDuration P < of_nat (length (loadedImages P))"
    using assms D by (simp add: totalDuration_def imageDuration_def pos_divide_less_eq mult.assoc)
  then have "of_int t / imageDuration P < of_int (int (length (loadedImages P)))"
    by simp
  then show "currentIndex P t < int (length (loadedImages P))"
    unfolding currentIndex_def by (simp only: floor_less_iff)
qed

lemma nextIndex_range:
  assumes "0 \<le> t" "of_int t < totalDuration P"
  shows "nextIndex P t = (currentIndex P t + 1) mod int (length (loadedImages P))"
        "0 \<le> nextIndex P t" and "nextIndex P t < int (length (loadedImages P))"
proof -
  have n: "0 < int (length (loadedImages P))"
    using running_positive [OF assms] by simp
  have c: "0 \<le> currentIndex P t + 1" using currentIndex_range [OF assms] by simp
  show e: "nextIndex P t = (currentIndex P t + 1) mod int (length (loadedImages P))"
    unfolding nextIndex_def using jsRemInt_nonneg [OF c n] .
  show "0 \<le> nextIndex P t" using n by (simp add: e)
  show "nextIndex P t < int (length (loadedImages P))" using n by (simp add: e)
qed


lemma pictures_defined:
  assumes "0 \<le> t" "of_int t < totalDuration P"
  shows "imageAt (loadedImages P) (currentIndex P t) =
           Some (loadedImages P ! nat (currentIndex P t))"
    and "imageAt (loadedImages P) (nextIndex P t) =
           Some (loadedImages P ! nat (nextIndex P t))"
  using currentIndex_range [OF assms] nextIndex_range(2,3) [OF assms]
  by (simp_all add: imageAt_def)

lemma paintFrame_running:
  assumes "0 \<le> t" "of_int t < totalDuration P"
  shows "paintFrame P t ctx =
     (if timeInCurrentImage P t < imageDuration P - transitionDuration
      then drawImageCover (clearFrame ctx) (Some (loadedImages P ! nat (currentIndex P t)))
             canvas_width canvas_height
      else compositeFrame (clearFrame ctx) (transition P)
             (Some (loadedImages P ! nat (currentIndex P t)))
             (Some (loadedImages P ! nat (nextIndex P t)))
             canvas_width canvas_height (transitionProgress P t))"
proof -
  have D: "imageDuration P \<noteq> 0" using running_positive(1) [OF assms] by simp
  show ?thesis
    using D pictures_defined [OF assms] by (simp add: paintFrame_def Let_def)
qed

lemma abc_simps:
  "imageDuration (abc A B C) = 3000" "totalDuration (abc A B C) = 9000"
  "loadedImages (abc A B C) = [A, B, C]" "transition (abc A B C) = ''fade''"
  by (simp_all add: abc_def imageDuration_def totalDuration_def)

lemma abc_2800:
  "currentIndex (abc A B C) 2800 = 0" "nextIndex (abc A B C) 2800 = 1"
  "timeInCurrentImage (abc A B C) 2800 = 2800" "transitionProgress (abc A B C) 2800 = 3 / 5"
  by (simp_all add: currentIndex_def nextIndex_def timeInCurrentImage_def
      transitionProgress_def transitionDuration_def abc_simps jsRem_def jsTrunc_def jsRemInt_def
      floor_eq_iff)

lemma abc_3100:
  "currentIndex (abc A B C) 3100 = 1" "nextIndex (abc A B C) 3100 = 2"
  "timeInCurrentImage (abc A B C) 3100 = 100"
  by (simp_all add: currentIndex_def nextIndex_def timeInCurrentImage_def
      transitionProgress_def transitionDuration_def abc_simps jsRem_def jsTrunc_def jsRemInt_def
      floor_eq_iff)

text \<open>Claim C7: for the program [A, B, C] with three seconds per picture, fading, and
  the 500 ms transition: at \<open>t = 2800\<close> the current index is 0, the next index is 1 and
  the progress is \<open>0.6\<close>, and A and B are composited at that progress; at \<open>t = 3100\<close>
  the current index is 1 and the time in the image is \<open>100 < 2500\<close>, so B is drawn
  alone.\<close>

theorem C7_scenario:
  "currentIndex (abc A B C) 2800 = 0 \<and> nextIndex (abc A B C) 2800 = 1 \<and>
   transitionProgress (abc A B C) 2800 = 3 / 5 \<and>
   paintFrame (abc A B C) 2800 ctx =
     compositeFrame (clearFrame ctx) ''fade'' (Some A) (Some B)
       canvas_width canvas_height (3 / 5) \<and>
   currentIndex (abc A B C) 3100 = 1 \<and> timeInCurrentImage (abc A B C) 3100 = 100 \<and>
   (100::rat) < 3000 - transitionDuration \<and>
   paintFrame (abc A B C) 3100 ctx =
     drawImageCover (clearFrame ctx) (Some B) canvas_width canvas_height"
  by (simp add: paintFrame_def Let_def abc_2800 abc_3100 abc_simps imageAt_def
      transitionDuration_def)



subsection \<open>Painting\<close>

lemma mix_zero: "mix 0 c d = d"
  by (cases c rule: prod_cases3, cases d rule: prod_cases3) simp

lemma mix_one: "mix 1 c d = c"
  by (cases c rule: prod_cases3, cases d rule: prod_cases3) simp

lemma paint_fields: "cur (paint ctx src) = cur ctx" "stack (paint ctx src) = stack ctx"
  by (simp_all add: paint_def)

lemma drawCover_fields:
  "cur (drawCover ctx i cw ch) = cur ctx" "stack (drawCover ctx i cw ch) = stack ctx"
  by (simp_all add: drawCover_def drawImage_def paint_fields split: option.splits)

lemma drawCover_transparent:
  assumes "globalAlpha (cur ctx) = 0"
  shows "bitmap (drawCover ctx i cw ch) = bitmap ctx"
  using assms
  by (auto simp: drawCover_def drawImage_def paint_def mix_zero fun_eq_iff
      split: option.splits prod.splits)

lemma drawCover_cong:
  assumes "globalAlpha (cur c1) = globalAlpha (cur c2)"
    "scaleX (cur c1) = scaleX (cur c2)" "scaleY (cur c1) = scaleY (cur c2)"
    "shiftX (cur c1) = shiftX (cur c2)" "shiftY (cur c1) = shiftY (cur c2)"
    "bitmap c1 = bitmap c2"
  shows "bitmap (drawCover c1 i cw ch) = bitmap (drawCover c2 i cw ch)"
  using assms
  by (simp add: drawCover_def drawImage_def paint_def split: option.splits
      cong: if_cong option.case_cong)

lemma drawCover_opaque:
  assumes "plainState c1" "plainState c2" "opaque i" "0 < width i" "0 < height i"
    "0 < cw" "0 < ch" "inFrame cw ch x y"
  shows "bitmap (drawCover c1 i cw ch) x y = bitmap (drawCover c2 i cw ch) x y"
proof -
  obtain r where r: "coverRect (width i) (height i) cw ch = Some r" "coversFrame r cw ch"
    using coverRect_covers [OF assms(4,5,6,7)] by blast
  have "inRect x y (offsetX r) (offsetY r) (drawWidth r) (drawHeight r)"
    using r(2) assms(8) by (simp add: coversFrame_def inFrame_def inRect_def)
  then show ?thesis
    using assms(1,2,3) r(1)
    by (simp add: drawCover_def drawImage_def paint_def plainState_def opaque_def mix_one
        case_prod_beta)
qed

lemma drawCover_beside:
  assumes "scaleX (cur ctx) = 1" "shiftX (cur ctx) = cw" "0 < cw" "0 < ch"
    "0 < width i" "0 < height i" "width i / height i \<le> cw / ch" "inFrame cw ch x y"
  shows "bitmap (drawCover ctx i cw ch) x y = bitmap ctx x y"
proof -
  have "coverRect (width i) (height i) cw ch =
      Some \<lparr>drawWidth = cw, drawHeight = height i * (cw / width i), offsetX = 0,
            offsetY = (ch - height i * (cw / width i)) / 2\<rparr>"
    using assms by (intro coverRect_tall) simp_all
  then show ?thesis
    using assms(1,2,8)
    by (simp add: drawCover_def drawImage_def paint_def inRect_def inFrame_def
        split: prod.splits)
qed

lemma clearFrame_fields:
  "stack (clearFrame ctx) = stack ctx"
  "globalAlpha (cur (clearFrame ctx)) = globalAlpha (cur ctx)"
  "scaleX (cur (clearFrame ctx)) = scaleX (cur ctx)"
  "scaleY (cur (clearFrame ctx)) = scaleY (cur ctx)"
  "shiftX (cur (clearFrame ctx)) = shiftX (cur ctx)"
  "shiftY (cur (clearFrame ctx)) = shiftY (cur ctx)"
  by (simp_all add: clearFrame_def fillRect_def setFillStyle_def paint_fields)

lemma clearFrame_plain: "plainState ctx \<Longrightarrow> plainState (clearFrame ctx)"
  by (simp add: plainState_def clearFrame_fields)

lemma clearFrame_black:
  assumes "plainState ctx" "inFrame canvas_width canvas_height x y"
  shows "bitmap (clearFrame ctx) x y = black"
  using assms
  by (simp add: clearFrame_def fillRect_def setFillStyle_def paint_def plainState_def
      inFrame_def inRect_def mix_one)


lemma setGlobalAlpha_fields:
  "bitmap (setGlobalAlpha c a) = bitmap c" "stack (setGlobalAlpha c a) = stack c"
  "scaleX (cur (setGlobalAlpha c a)) = scaleX (cur c)"
  "scaleY (cur (setGlobalAlpha c a)) = scaleY (cur c)"
  "shiftX (cur (setGlobalAlpha c a)) = shiftX (cur c)"
  "shiftY (cur (setGlobalAlpha c a)) = shiftY (cur c)"
  "globalAlpha (cur (setGlobalAlpha c a)) = (if 0 \<le> a \<and> a \<le> 1 then a else globalAlpha (cur c))"
  by (simp_all add: setGlobalAlpha_def)

lemma save_fields:
  "bitmap (save c) = bitmap c" "stack (save c) = cur c # stack c" "cur (save c) = cur c"
  by (simp_all add: save_def)

lemma translate_fields:
  "bitmap (translate c dx dy) = bitmap c" "stack (translate c dx dy) = stack c"
  "globalAlpha (cur (translate c dx dy)) = globalAlpha (cur c)"
  "scaleX (cur (translate c dx dy)) = scaleX (cur c)"
  "scaleY (cur (translate c dx dy)) = scaleY (cur c)"
  "shiftX (cur (translate c dx dy)) = shiftX (cur c) + scaleX (cur c) * dx"
  "shiftY (cur (translate c dx dy)) = shiftY (cur c) + scaleY (cur c) * dy"
  by (simp_all add: translate_def)

lemma scale_fields:
  "bitmap (scale c a b) = bitmap c" "stack (scale c a b) = stack c"
  "globalAlpha (cur (scale c a b)) = globalAlpha (cur c)"
  "scaleX (cur (scale c a b)) = scaleX (cur c) * a"
  "scaleY (cur (scale c a b)) = scaleY (cur c) * b"
  "shiftX (cur (scale c a b)) = shiftX (cur c)"
  "shiftY (cur (scale c a b)) = shiftY (cur c)"
  by (simp_all add: scale_def)

lemma restore_pushed:
  assumes "stack c = d # ds"
  shows "cur (restore c) = d" "stack (restore c) = ds" "bitmap (restore c) = bitmap c"
  using assms by (simp_all add: restore_def)

lemmas ctx_fields = setGlobalAlpha_fields save_fields translate_fields scale_fields
  drawCover_fields

subsection \<open>The compositor at both ends of a transition\<close>

lemma compositeFrame_fade:
  "compositeFrame ctx ''fade'' (Some a) (Some b) cw ch p =
     Inr (setGlobalAlpha (drawCover (setGlobalAlpha (drawCover ctx a cw ch) p) b cw ch) 1)"
  by (simp add: compositeFrame_def drawImageCover_def)

lemma compositeFrame_slide:
  "compositeFrame ctx ''slide'' (Some a) (Some b) cw ch p =
     Inr (restore (drawCover
            (translate (save (restore (drawCover (translate (save ctx) (- (cw * p)) 0)
               a cw ch))) (cw - cw * p) 0) b cw ch))"
  by (simp add: compositeFrame_def drawImageCover_def Let_def)

lemma compositeFrame_zoom:
  "compositeFrame ctx ''zoom'' (Some a) (Some b) cw ch p =
     Inr (setGlobalAlpha (drawCover (setGlobalAlpha (restore (drawCover
            (setGlobalAlpha
               (translate (scale (translate (save ctx) (cw / 2) (ch / 2))
                  (1 + p * (3 / 10)) (1 + p * (3 / 10))) (- cw / 2) (- ch / 2))
               (1 - p)) a cw ch)) p) b cw ch) 1)"
  by (simp add: compositeFrame_def drawImageCover_def Let_def)

lemma compositeFrame_unknown:
  assumes "style \<noteq> ''fade''" "style \<noteq> ''slide''" "style \<noteq> ''zoom''"
  shows "compositeFrame ctx style a b cw ch p = Inr ctx"
  using assms by (simp add: compositeFrame_def)

lemma sameFrame_Inr:
  "sameFrame cw ch (Inr c1) (Inr c2) \<longleftrightarrow>
     (\<forall>x y. inFrame cw ch x y \<longrightarrow> bitmap c1 x y = bitmap c2 x y)"
  by (simp add: sameFrame_def)

lemma fade_start:
  "sameFrame cw ch (compositeFrame ctx ''fade'' (Some a) (Some b) cw ch 0)
     (drawImageCover ctx (Some a) cw ch)"
proof -
  have "bitmap (drawCover (setGlobalAlpha (drawCover ctx a cw ch) 0) b cw ch) =
      bitmap (setGlobalAlpha (drawCover ctx a cw ch) 0)"
    by (rule drawCover_transparent) (simp add: ctx_fields)
  then show ?thesis
    by (simp add: compositeFrame_fade drawImageCover_def sameFrame_Inr ctx_fields)
qed

lemma fade_end:
  assumes "plainState ctx" "0 < cw" "0 < ch" "opaque b" "0 < width b" "0 < height b"
  shows "sameFrame cw ch (compositeFrame ctx ''fade'' (Some a) (Some b) cw ch 1)
     (drawImageCover ctx (Some b) cw ch)"
proof -
  have "plainState (setGlobalAlpha (drawCover ctx a cw ch) 1)"
    using assms(1) by (simp add: plainState_def ctx_fields)
  from drawCover_opaque [OF this assms(1,4,5,6,2,3)]
  show ?thesis
    by (simp add: compositeFrame_fade drawImageCover_def sameFrame_Inr ctx_fields)
qed

lemma zoom_start:
  assumes "plainState ctx"
  shows "sameFrame cw ch (compositeFrame ctx ''zoom'' (Some a) (Some b) cw ch 0)
     (drawImageCover ctx (Some a) cw ch)"
proof -
  define c0 where "c0 = setGlobalAlpha
      (translate (scale (translate (save ctx) (cw / 2) (ch / 2)) 1 1) (- cw / 2) (- ch / 2)) 1"
  define c1 where "c1 = drawCover c0 a cw ch"
  have "bitmap c1 = bitmap (drawCover ctx a cw ch)"
    unfolding c1_def using assms
    by (intro drawCover_cong) (simp_all add: c0_def plainState_def ctx_fields)
  moreover have "stack c1 = cur ctx # stack ctx"
    by (simp add: c1_def c0_def ctx_fields)
  moreover have "bitmap (drawCover (setGlobalAlpha (restore c1) 0) b cw ch) =
      bitmap (setGlobalAlpha (restore c1) 0)"
    by (rule drawCover_transparent) (simp add: ctx_fields)
  ultimately show ?thesis
    by (simp add: compositeFrame_zoom drawImageCover_def sameFrame_Inr ctx_fields
        restore_pushed c1_def c0_def)
qed

lemma zoom_end:
  assumes "plainState ctx"
  shows "sameFrame cw ch (compositeFrame ctx ''zoom'' (Some a) (Some b) cw ch 1)
     (drawImageCover ctx (Some b) cw ch)"
proof -
  define c0 where "c0 = setGlobalAlpha
      (translate (scale (translate (save ctx) (cw / 2) (ch / 2)) (1 + 1 * (3 / 10))
         (1 + 1 * (3 / 10))) (- cw / 2) (- ch / 2)) (1 - 1)"
  define c1 where "c1 = drawCover c0 a cw ch"
  have b1: "bitmap c1 = bitmap ctx"
  proof -
    have "bitmap c1 = bitmap c0"
      unfolding c1_def by (rule drawCover_transparent) (simp add: c0_def ctx_fields)
    then show ?thesis by (simp add: c0_def ctx_fields)
  qed
  have s1: "stack c1 = cur ctx # stack ctx"
    by (simp add: c1_def c0_def ctx_fields)
  have "bitmap (drawCover (setGlobalAlpha (restore c1) 1) b cw ch) =
      bitmap (drawCover ctx b cw ch)"
    using assms b1
    by (intro drawCover_cong)
      (simp_all add: plainState_def ctx_fields restore_pushed [OF s1])
  then show ?thesis
    by (simp add: compositeFrame_zoom drawImageCover_def sameFrame_Inr ctx_fields
        c1_def c0_def)
qed

lemma slide_end:
  assumes "plainState ctx" "0 < cw" "0 < ch" "opaque b" "0 < width b" "0 < height b"
  shows "sameFrame cw ch (compositeFrame ctx ''slide'' (Some a) (Some b) cw ch 1)
     (drawImageCover ctx (Some b) cw ch)"
proof -
  define c1 where "c1 = drawCover (translate (save ctx) (- (cw * 1)) 0) a cw ch"
  define c2 where "c2 = translate (save (restore c1)) (cw - cw * 1) 0"
  have s1: "stack c1 = cur ctx # stack ctx"
    by (simp add: c1_def ctx_fields)
  have "plainState c2"
    using assms(1) by (simp add: c2_def plainState_def ctx_fields restore_pushed [OF s1])
  from drawCover_opaque [OF this assms(1,4,5,6,2,3)]
  have "\<forall>x y. inFrame cw ch x y \<longrightarrow>
      bitmap (drawCover c2 b cw ch) x y = bitmap (drawCover ctx b cw ch) x y"
    by simp
  moreover have "stack (drawCover c2 b cw ch) = cur (restore c1) # stack (restore c1)"
    by (simp add: c2_def ctx_fields)
  ultimately show ?thesis
    by (simp add: compositeFrame_slide drawImageCover_def sameFrame_Inr restore_pushed
        c1_def c2_def)
qed

lemma slide_start:
  assumes "plainState ctx" "0 < cw" "0 < ch"
    "0 < width b" "0 < height b" "width b / height b \<le> cw / ch"
  shows "sameFrame cw ch (compositeFrame ctx ''slide'' (Some a) (Some b) cw ch 0)
     (drawImageCover ctx (Some a) cw ch)"
proof -
  define c1 where "c1 = drawCover (translate (save ctx) (- (cw * 0)) 0) a cw ch"
  define c2 where "c2 = translate (save (restore c1)) (cw - cw * 0) 0"
  have s1: "stack c1 = cur ctx # stack ctx"
    by (simp add: c1_def ctx_fields)
  have b1: "bitmap c1 = bitmap (drawCover ctx a cw ch)"
    unfolding c1_def by (intro drawCover_cong) (simp_all add: ctx_fields)
  have c2: "scaleX (cur c2) = 1" "shiftX (cur c2) = cw" "bitmap c2 = bitmap c1"
    using assms(1) by (simp_all add: c2_def plainState_def ctx_fields restore_pushed [OF s1])
  have "\<forall>x y. inFrame cw ch x y \<longrightarrow> bitmap (drawCover c2 b cw ch) x y = bitmap c2 x y"
    using drawCover_beside [OF c2(1,2) assms(2,3,4,5,6)] by simp
  moreover have "stack (drawCover c2 b cw ch) = cur (restore c1) # stack (restore c1)"
    by (simp add: c2_def ctx_fields)
  moreover have "compositeFrame ctx ''slide'' (Some a) (Some b) cw ch 0 =
      Inr (restore (drawCover c2 b cw ch))"
    unfolding c1_def c2_def by (simp only: compositeFrame_slide)
  ultimately show ?thesis
    by (simp add: drawImageCover_def sameFrame_Inr restore_pushed c2(3) b1)
qed

lemma freshContext_plain: "plainState freshContext"
  by (simp add: plainState_def freshContext_def)

lemma sample_pictures:
  "opaque bluePicture" "width bluePicture = 1920" "height bluePicture = 1080"
  "width redPicture = 1920" "height redPicture = 1080"
  "texel redPicture u v = (red, 1)" "texel bluePicture u v = (blue, 1)"
  "width bluePanorama = 3840" "height bluePanorama = 1080" "texel bluePanorama u v = (blue, 1)"
  "width blueGlass = 1920" "height blueGlass = 1080" "texel blueGlass u v = (blue, 1 / 2)"
  by (simp_all add: opaque_def bluePicture_def redPicture_def bluePanorama_def blueGlass_def
      solid_def)

lemma freshContext_fields:
  "globalAlpha (cur freshContext) = 1" "scaleX (cur freshContext) = 1"
  "scaleY (cur freshContext) = 1" "shiftX (cur freshContext) = 0"
  "shiftY (cur freshContext) = 0" "stack freshContext = []"
  by (simp_all add: freshContext_def)

lemma pixelOf_Inr: "pixelOf (Inr c) x y = Some (bitmap c x y)"
  by (simp add: pixelOf_def)

lemma cleared_pixel: "bitmap (clearFrame freshContext) 1000 0 = black"
  by (rule clearFrame_black [OF freshContext_plain]) (simp add: inFrame_def canvas_width_def canvas_height_def)

lemma red_alone_pixel:
  "pixelOf (drawImageCover (clearFrame freshContext) (Some redPicture) 1920 1080) 1000 0 = Some red"
  by (simp add: drawImageCover_def pixelOf_Inr drawCover_def coverRect_def sample_pictures
      drawImage_def paint_def clearFrame_fields freshContext_fields inRect_def mix_one)

lemma slide_start_pixel:
  "pixelOf (compositeFrame (clearFrame freshContext) ''slide'' (Some redPicture)
      (Some bluePanorama) 1920 1080 0) 1000 0 = Some blue"
proof -
  define c1 where "c1 = drawCover (translate (save (clearFrame freshContext)) (- (1920 * 0)) 0)
      redPicture 1920 1080"
  define c2 where "c2 = translate (save (restore c1)) (1920 - 1920 * 0) 0"
  have s1: "stack c1 = cur (clearFrame freshContext) # stack (clearFrame freshContext)"
    by (simp add: c1_def ctx_fields)
  have c2: "globalAlpha (cur c2) = 1" "scaleX (cur c2) = 1" "scaleY (cur c2) = 1"
    "shiftX (cur c2) = 1920" "shiftY (cur c2) = 0"
    by (simp_all add: c2_def ctx_fields restore_pushed [OF s1] clearFrame_fields
        freshContext_fields)
  have "bitmap (drawCover c2 bluePanorama 1920 1080) 1000 0 = blue"
    by (simp add: drawCover_def coverRect_def sample_pictures drawImage_def paint_def c2
        inRect_def mix_one)
  moreover have "stack (drawCover c2 bluePanorama 1920 1080) =
      cur (restore c1) # stack (restore c1)"
    by (simp add: c2_def ctx_fields)
  moreover have "compositeFrame (clearFrame freshContext) ''slide'' (Some redPicture)
      (Some bluePanorama) 1920 1080 0 = Inr (restore (drawCover c2 bluePanorama 1920 1080))"
    unfolding c1_def c2_def by (simp only: compositeFrame_slide)
  ultimately show ?thesis
    by (simp add: pixelOf_Inr restore_pushed)
qed

lemma glass_alone_pixel:
  "pixelOf (drawImageCover (clearFrame freshContext) (Some blueGlass) 1920 1080) 1000 0
     = Some (0, 0, 1 / 2)"
  by (simp add: drawImageCover_def pixelOf_Inr drawCover_def coverRect_def sample_pictures
      drawImage_def paint_def clearFrame_fields freshContext_fields inRect_def cleared_pixel
      black_def blue_def)

lemma fade_end_pixel:
  "pixelOf (compositeFrame (clearFrame freshContext) ''fade'' (Some redPicture)
      (Some blueGlass) 1920 1080 1) 1000 0 = Some (1 / 2, 0, 1 / 2)"
proof -
  define c1 where "c1 = setGlobalAlpha (drawCover (clearFrame freshContext) redPicture 1920 1080) 1"
  have c1: "globalAlpha (cur c1) = 1" "scaleX (cur c1) = 1" "scaleY (cur c1) = 1"
    "shiftX (cur c1) = 0" "shiftY (cur c1) = 0"
    by (simp_all add: c1_def ctx_fields clearFrame_fields freshContext_fields)
  have "bitmap c1 1000 0 = red"
    using red_alone_pixel by (simp add: c1_def ctx_fields drawImageCover_def pixelOf_Inr)
  then have "bitmap (drawCover c1 blueGlass 1920 1080) 1000 0 = (1 / 2, 0, 1 / 2)"
    by (simp add: drawCover_def coverRect_def sample_pictures drawImage_def paint_def c1
        inRect_def red_def blue_def)
  then show ?thesis
    by (simp add: compositeFrame_fade pixelOf_Inr ctx_fields c1_def)
qed

lemma sameFrame_pixel:
  assumes "sameFrame cw ch r1 r2" "inFrame cw ch x y"
  shows "pixelOf r1 x y = pixelOf r2 x y"
  using assms by (auto simp: sameFrame_def pixelOf_def split: sum.splits)

lemma slideShow_2500:
  "paintFrame slideShow 2500 freshContext =
     compositeFrame (clearFrame freshContext) ''slide'' (Some redPicture) (Some bluePanorama)
       1920 1080 0"
proof -
  have d: "imageDuration slideShow = 3000" "loadedImages slideShow = [redPicture, bluePanorama]"
    "transition slideShow = ''slide''"
    by (simp_all add: imageDuration_def slideShow_def)
  have v: "currentIndex slideShow 2500 = 0" "nextIndex slideShow 2500 = 1"
    "timeInCurrentImage slideShow 2500 = 2500" "transitionProgress slideShow 2500 = 0"
    by (simp_all add: currentIndex_def nextIndex_def timeInCurrentImage_def
        transitionProgress_def transitionDuration_def d jsRem_def jsTrunc_def jsRemInt_def
        floor_eq_iff)
  show ?thesis
    by (simp add: paintFrame_def Let_def d v imageAt_def transitionDuration_def
        canvas_width_def canvas_height_def)
qed

lemma mix_same_iff: "mix a c d = mix a c d' \<longleftrightarrow> a = 1 \<or> d = d'"
  by (cases c rule: prod_cases3, cases d rule: prod_cases3, cases d' rule: prod_cases3) auto

lemma mix_keeps_iff: "mix a c d = d \<longleftrightarrow> a = 0 \<or> c = d"
proof -
  have *: "a * r + (1 - a) * s = s \<longleftrightarrow> a = 0 \<or> r = s" for r s :: rat
  proof -
    have "a * r + (1 - a) * s = s \<longleftrightarrow> a * (r - s) = 0"
      by (simp add: algebra_simps)
    then show ?thesis by simp
  qed
  show ?thesis
    by (cases c rule: prod_cases3, cases d rule: prod_cases3) (auto simp: *)
qed

lemma drawCover_pixel:
  assumes "globalAlpha (cur ctx) = 1" "scaleX (cur ctx) = 1" "scaleY (cur ctx) = 1"
    "shiftX (cur ctx) = dx" "shiftY (cur ctx) = 0"
  shows "bitmap (drawCover ctx img cw ch) x y =
     (case texelAt img cw ch dx x y of
        None \<Rightarrow> bitmap ctx x y
      | Some t \<Rightarrow> mix (snd t) (fst t) (bitmap ctx x y))"
  using assms
  by (simp add: drawCover_def drawImage_def paint_def texelAt_def case_prod_beta
      split: option.splits)

lemma drawn_twice_iff:
  assumes "globalAlpha (cur c1) = 1" "scaleX (cur c1) = 1" "scaleY (cur c1) = 1"
    "shiftX (cur c1) = 0" "shiftY (cur c1) = 0"
    and "globalAlpha (cur c2) = 1" "scaleX (cur c2) = 1" "scaleY (cur c2) = 1"
    "shiftX (cur c2) = 0" "shiftY (cur c2) = 0"
  shows "bitmap (drawCover c1 b cw ch) x y = bitmap (drawCover c2 b cw ch) x y \<longleftrightarrow>
     (bitmap c1 x y \<noteq> bitmap c2 x y \<longrightarrow> coversOpaquely b cw ch x y)"
  unfolding drawCover_pixel [OF assms(1-5)] drawCover_pixel [OF assms(6-10)]
  by (auto simp: coversOpaquely_def mix_same_iff split: option.splits)

lemma fade_end_iff:
  assumes "plainState ctx"
  shows "sameFrame cw ch (compositeFrame ctx ''fade'' (Some a) (Some b) cw ch 1)
           (drawImageCover ctx (Some b) cw ch) \<longleftrightarrow>
         (\<forall>x y. inFrame cw ch x y \<and> bitmap (drawCover ctx a cw ch) x y \<noteq> bitmap ctx x y
                  \<longrightarrow> coversOpaquely b cw ch x y)"
proof -
  define c1 where "c1 = setGlobalAlpha (drawCover ctx a cw ch) 1"
  have f: "globalAlpha (cur c1) = 1" "scaleX (cur c1) = 1" "scaleY (cur c1) = 1"
    "shiftX (cur c1) = 0" "shiftY (cur c1) = 0"
    using assms by (simp_all add: c1_def plainState_def ctx_fields)
  have g: "globalAlpha (cur ctx) = 1" "scaleX (cur ctx) = 1" "scaleY (cur ctx) = 1"
    "shiftX (cur ctx) = 0" "shiftY (cur ctx) = 0"
    using assms by (simp_all add: plainState_def)
  have b1: "bitmap c1 = bitmap (drawCover ctx a cw ch)"
    by (simp add: c1_def ctx_fields)
  have "sameFrame cw ch (compositeFrame ctx ''fade'' (Some a) (Some b) cw ch 1)
      (drawImageCover ctx (Some b) cw ch) \<longleftrightarrow>
    (\<forall>x y. inFrame cw ch x y \<longrightarrow>
       bitmap (drawCover c1 b cw ch) x y = bitmap (drawCover ctx b cw ch) x y)"
    by (simp add: compositeFrame_fade drawImageCover_def sameFrame_Inr ctx_fields c1_def)
  then show ?thesis
    unfolding drawn_twice_iff [OF f g] b1 by blast
qed

lemma slide_end_iff:
  assumes "plainState ctx"
  shows "sameFrame cw ch (compositeFrame ctx ''slide'' (Some a) (Some b) cw ch 1)
           (drawImageCover ctx (Some b) cw ch) \<longleftrightarrow>
         (\<forall>x y. inFrame cw ch x y \<and>
                 bitmap (drawCover (translate ctx (- cw) 0) a cw ch) x y \<noteq> bitmap ctx x y
                  \<longrightarrow> coversOpaquely b cw ch x y)"
proof -
  define c1 where "c1 = drawCover (translate (save ctx) (- (cw * 1)) 0) a cw ch"
  define c2 where "c2 = translate (save (restore c1)) (cw - cw * 1) 0"
  have s1: "stack c1 = cur ctx # stack ctx"
    by (simp add: c1_def ctx_fields)
  have f: "globalAlpha (cur c2) = 1" "scaleX (cur c2) = 1" "scaleY (cur c2) = 1"
    "shiftX (cur c2) = 0" "shiftY (cur c2) = 0"
    using assms by (simp_all add: c2_def plainState_def ctx_fields restore_pushed [OF s1])
  have g: "globalAlpha (cur ctx) = 1" "scaleX (cur ctx) = 1" "scaleY (cur ctx) = 1"
    "shiftX (cur ctx) = 0" "shiftY (cur ctx) = 0"
    using assms by (simp_all add: plainState_def)
  have "bitmap c1 = bitmap (drawCover (translate ctx (- cw) 0) a cw ch)"
    unfolding c1_def by (intro drawCover_cong) (simp_all add: ctx_fields)
  then have b2: "bitmap c2 = bitmap (drawCover (translate ctx (- cw) 0) a cw ch)"
    by (simp add: c2_def ctx_fields restore_pushed [OF s1])
  have s2: "stack (drawCover c2 b cw ch) = cur (restore c1) # stack (restore c1)"
    by (simp add: c2_def ctx_fields)
  have "compositeFrame ctx ''slide'' (Some a) (Some b) cw ch 1 =
      Inr (restore (drawCover c2 b cw ch))"
    unfolding c1_def c2_def by (simp only: compositeFrame_slide)
  then have "sameFrame cw ch (compositeFrame ctx ''slide'' (Some a) (Some b) cw ch 1)
      (drawImageCover ctx (Some b) cw ch) \<longleftrightarrow>
    (\<forall>x y. inFrame cw ch x y \<longrightarrow>
       bitmap (drawCover c2 b cw ch) x y = bitmap (drawCover ctx b cw ch) x y)"
    by (simp add: drawImageCover_def sameFrame_Inr restore_pushed [OF s2])
  then show ?thesis
    unfolding drawn_twice_iff [OF f g] b2 by blast
qed

lemma slide_start_iff:
  assumes "plainState ctx"
  shows "sameFrame cw ch (compositeFrame ctx ''slide'' (Some a) (Some b) cw ch 0)
           (drawImageCover ctx (Some a) cw ch) \<longleftrightarrow>
         (\<forall>x y. inFrame cw ch x y \<longrightarrow>
                 leavesPoint (texelAt b cw ch cw x y) (bitmap (drawCover ctx a cw ch) x y))"
proof -
  define c1 where "c1 = drawCover (translate (save ctx) (- (cw * 0)) 0) a cw ch"
  define c2 where "c2 = translate (save (restore c1)) (cw - cw * 0) 0"
  have s1: "stack c1 = cur ctx # stack ctx"
    by (simp add: c1_def ctx_fields)
  have b1: "bitmap c1 = bitmap (drawCover ctx a cw ch)"
    unfolding c1_def by (intro drawCover_cong) (simp_all add: ctx_fields)
  have f: "globalAlpha (cur c2) = 1" "scaleX (cur c2) = 1" "scaleY (cur c2) = 1"
    "shiftX (cur c2) = cw" "shiftY (cur c2) = 0"
    using assms by (simp_all add: c2_def plainState_def ctx_fields restore_pushed [OF s1])
  have b2: "bitmap c2 = bitmap (drawCover ctx a cw ch)"
    by (simp add: c2_def ctx_fields restore_pushed [OF s1] b1)
  have s2: "stack (drawCover c2 b cw ch) = cur (restore c1) # stack (restore c1)"
    by (simp add: c2_def ctx_fields)
  have "compositeFrame ctx ''slide'' (Some a) (Some b) cw ch 0 =
      Inr (restore (drawCover c2 b cw ch))"
    unfolding c1_def c2_def by (simp only: compositeFrame_slide)
  then have "sameFrame cw ch (compositeFrame ctx ''slide'' (Some a) (Some b) cw ch 0)
      (drawImageCover ctx (Some a) cw ch) \<longleftrightarrow>
    (\<forall>x y. inFrame cw ch x y \<longrightarrow>
       bitmap (drawCover c2 b cw ch) x y = bitmap (drawCover ctx a cw ch) x y)"
    by (simp add: drawImageCover_def sameFrame_Inr restore_pushed [OF s2])
  moreover have "bitmap (drawCover c2 b cw ch) x y = bitmap (drawCover ctx a cw ch) x y \<longleftrightarrow>
      leavesPoint (texelAt b cw ch cw x y) (bitmap (drawCover ctx a cw ch) x y)" for x y
    unfolding drawCover_pixel [OF f] b2
    by (auto simp: leavesPoint_def mix_keeps_iff split: option.splits)
  ultimately show ?thesis by simp
qed

lemma drawCover_left_of_frame:
  assumes "scaleX (cur ctx) = 1" "shiftX (cur ctx) = - cw" "0 < cw" "0 < ch"
    "0 < width i" "0 < height i" "width i / height i \<le> cw / ch" "inFrame cw ch x y"
  shows "bitmap (drawCover ctx i cw ch) x y = bitmap ctx x y"
proof -
  have "coverRect (width i) (height i) cw ch =
      Some \<lparr>drawWidth = cw, drawHeight = height i * (cw / width i), offsetX = 0,
            offsetY = (ch - height i * (cw / width i)) / 2\<rparr>"
    using assms by (intro coverRect_tall) simp_all
  then show ?thesis
    using assms(1,2,8)
    by (simp add: drawCover_def drawImage_def paint_def inRect_def inFrame_def
        split: prod.splits)
qed

lemma slide_end_narrow_current:
  assumes "plainState ctx" "0 < cw" "0 < ch"
    "0 < width a" "0 < height a" "width a / height a \<le> cw / ch"
  shows "sameFrame cw ch (compositeFrame ctx ''slide'' (Some a) (Some b) cw ch 1)
     (drawImageCover ctx (Some b) cw ch)"
proof -
  have "bitmap (drawCover (translate ctx (- cw) 0) a cw ch) x y = bitmap ctx x y"
    if "inFrame cw ch x y" for x y
    using drawCover_left_of_frame [of "translate ctx (- cw) 0" cw ch a x y] assms that
    by (simp add: plainState_def ctx_fields)
  then show ?thesis
    unfolding slide_end_iff [OF assms(1)] by blast
qed

lemma red_panorama: 
  "width redPanorama = 3840" "height redPanorama = 1080" "texel redPanorama u v = (red, 1)"
  by (simp_all add: redPanorama_def solid_def)

lemma glass_alone_pixel_left:
  "pixelOf (drawImageCover (clearFrame freshContext) (Some blueGlass) 1920 1080) 100 0
     = Some (0, 0, 1 / 2)"
proof -
  have "bitmap (clearFrame freshContext) 100 0 = black"
    by (rule clearFrame_black [OF freshContext_plain])
      (simp add: inFrame_def canvas_width_def canvas_height_def)
  then show ?thesis
    by (simp add: drawImageCover_def pixelOf_Inr drawCover_def coverRect_def sample_pictures
        drawImage_def paint_def clearFrame_fields freshContext_fields inRect_def
        black_def blue_def)
qed

lemma slide_end_pixel:
  "pixelOf (compositeFrame (clearFrame freshContext) ''slide'' (Some redPanorama)
      (Some blueGlass) 1920 1080 1) 100 0 = Some (1 / 2, 0, 1 / 2)"
proof -
  define c1 where "c1 = drawCover (translate (save (clearFrame freshContext)) (- (1920 * 1)) 0)
      redPanorama 1920 1080"
  define c2 where "c2 = translate (save (restore c1)) (1920 - 1920 * 1) 0"
  have s1: "stack c1 = cur (clearFrame freshContext) # stack (clearFrame freshContext)"
    by (simp add: c1_def ctx_fields)
  have "bitmap c1 100 0 = red"
    by (simp add: c1_def drawCover_def coverRect_def red_panorama drawImage_def paint_def
        ctx_fields clearFrame_fields freshContext_fields inRect_def mix_one)
  then have b2: "bitmap c2 100 0 = red"
    by (simp add: c2_def ctx_fields restore_pushed [OF s1])
  have c2: "globalAlpha (cur c2) = 1" "scaleX (cur c2) = 1" "scaleY (cur c2) = 1"
    "shiftX (cur c2) = 0" "shiftY (cur c2) = 0"
    by (simp_all add: c2_def ctx_fields restore_pushed [OF s1] clearFrame_fields
        freshContext_fields)
  have "bitmap (drawCover c2 blueGlass 1920 1080) 100 0 = (1 / 2, 0, 1 / 2)"
    using b2
    by (simp add: drawCover_def coverRect_def sample_pictures drawImage_def paint_def c2
        inRect_def red_def blue_def)
  moreover have "stack (drawCover c2 blueGlass 1920 1080) =
      cur (restore c1) # stack (restore c1)"
    by (simp add: c2_def ctx_fields)
  moreover have "compositeFrame (clearFrame freshContext) ''slide'' (Some redPanorama)
      (Some blueGlass) 1920 1080 1 = Inr (restore (drawCover c2 blueGlass 1920 1080))"
    unfolding c1_def c2_def by (simp only: compositeFrame_slide)
  ultimately show ?thesis
    by (simp add: pixelOf_Inr restore_pushed)
qed

text \<open>Claim C4 as stated fails, in three places. Sliding at progress 0 from a red
  picture to a blue panorama twice as wide as the canvas: the panorama's rectangle
  starts 960 to the left of the canvas, so after the translation by the canvas width it
  reaches into the right half of the frame, and the point \<open>(1000, 0)\<close> is blue where
  the red picture alone leaves it red; \<^verbatim>\<open>renderFrame\<close> paints this frame at \<open>t = 2500\<close>.
  Fading at progress 1 from the red picture to a half transparent blue one: the red
  picture shows through. Sliding at progress 1 from a red panorama to the half
  transparent picture: the right end of the panorama, translated to the left by the
  canvas width, still reaches 960 into the frame and shows through at \<open>(100, 0)\<close>.
  (Progress 1 is the compositing code evaluated at 1; \<^verbatim>\<open>renderFrame\<close> itself only
  passes values below 1.)\<close>

theorem C4_counterexample:
  "inFrame 1920 1080 1000 0 \<and>
   transitionProgress slideShow 2500 = 0 \<and>
   pixelOf (paintFrame slideShow 2500 freshContext) 1000 0 = Some blue \<and>
   pixelOf (compositeFrame (clearFrame freshContext) ''slide'' (Some redPicture)
      (Some bluePanorama) 1920 1080 0) 1000 0 = Some blue \<and>
   pixelOf (drawImageCover (clearFrame freshContext) (Some redPicture) 1920 1080) 1000 0
      = Some red \<and>
   \<not> sameFrame 1920 1080
       (compositeFrame (clearFrame freshContext) ''slide'' (Some redPicture)
          (Some bluePanorama) 1920 1080 0)
       (drawImageCover (clearFrame freshContext) (Some redPicture) 1920 1080) \<and>
   pixelOf (compositeFrame (clearFrame freshContext) ''fade'' (Some redPicture)
      (Some blueGlass) 1920 1080 1) 1000 0 = Some (1 / 2, 0, 1 / 2) \<and>
   pixelOf (drawImageCover (clearFrame freshContext) (Some blueGlass) 1920 1080) 1000 0
      = Some (0, 0, 1 / 2) \<and>
   \<not> sameFrame 1920 1080
       (compositeFrame (clearFrame freshContext) ''fade'' (Some redPicture)
          (Some blueGlass) 1920 1080 1)
       (drawImageCover (clearFrame freshContext) (Some blueGlass) 1920 1080) \<and>
   inFrame 1920 1080 100 0 \<and>
   pixelOf (compositeFrame (clearFrame freshContext) ''slide'' (Some redPanorama)
      (Some blueGlass) 1920 1080 1) 100 0 = Some (1 / 2, 0, 1 / 2) \<and>
   pixelOf (drawImageCover (clearFrame freshContext) (Some blueGlass) 1920 1080) 100 0
      = Some (0, 0, 1 / 2) \<and>
   \<not> sameFrame 1920 1080
       (compositeFrame (clearFrame freshContext) ''slide'' (Some redPanorama)
          (Some blueGlass) 1920 1080 1)
       (drawImageCover (clearFrame freshContext) (Some blueGlass) 1920 1080)"
proof -
  have f: "inFrame 1920 1080 1000 0" by (simp add: inFrame_def)
  have g: "inFrame 1920 1080 100 0" by (simp add: inFrame_def)
  have "\<not> sameFrame 1920 1080
       (compositeFrame (clearFrame freshContext) ''slide'' (Some redPicture)
          (Some bluePanorama) 1920 1080 0)
       (drawImageCover (clearFrame freshContext) (Some redPicture) 1920 1080)"
    using sameFrame_pixel [OF _ f] slide_start_pixel red_alone_pixel
    by (fastforce simp: red_def blue_def)
  moreover have "\<not> sameFrame 1920 1080
       (compositeFrame (clearFrame freshContext) ''fade'' (Some redPicture)
          (Some blueGlass) 1920 1080 1)
       (drawImageCover (clearFrame freshContext) (Some blueGlass) 1920 1080)"
    using sameFrame_pixel [OF _ f] fade_end_pixel glass_alone_pixel
    by fastforce
  moreover have "\<not> sameFrame 1920 1080
       (compositeFrame (clearFrame freshContext) ''slide'' (Some redPanorama)
          (Some blueGlass) 1920 1080 1)
       (drawImageCover (clearFrame freshContext) (Some blueGlass) 1920 1080)"
    using sameFrame_pixel [OF _ g] slide_end_pixel glass_alone_pixel_left
    by fastforce
  moreover have "transitionProgress slideShow 2500 = 0"
    by (simp add: transitionProgress_def timeInCurrentImage_def imageDuration_def
        slideShow_def transitionDuration_def jsRem_def jsTrunc_def floor_eq_iff)
  ultimately show ?thesis
    using f g slide_start_pixel red_alone_pixel fade_end_pixel glass_alone_pixel
      slide_end_pixel glass_alone_pixel_left
    by (simp add: slideShow_2500)
qed

text \<open>Claim C4, amended. On a context in its plain drawing state:
  at progress 0, fading and zooming give the frame of the current picture drawn alone;
  sliding does so exactly when every texel of the next picture that lands in the frame,
  the picture being drawn translated by the canvas width, is fully transparent or has
  the colour already there, and so in particular when the next picture is not
  relatively wider than the frame.
  At progress 1, zooming gives the frame of the next picture drawn alone; fading and
  sliding do so exactly when the next picture covers with opacity 1 every point of the
  frame that the current picture changed (for sliding: the current picture drawn
  translated to the left by the canvas width), and so in particular when the next
  picture is opaque, and for sliding also when the current picture is not relatively
  wider than the frame.\<close>

theorem C4_boundary_frames:
  assumes "plainState ctx" "0 < cw" "0 < ch"
  shows "(style = ''fade'' \<or> style = ''zoom'' \<longrightarrow>
            sameFrame cw ch (compositeFrame ctx style (Some a) (Some b) cw ch 0)
              (drawImageCover ctx (Some a) cw ch)) \<and>
         (sameFrame cw ch (compositeFrame ctx ''slide'' (Some a) (Some b) cw ch 0)
              (drawImageCover ctx (Some a) cw ch) \<longleftrightarrow>
            (\<forall>x y. inFrame cw ch x y \<longrightarrow>
               leavesPoint (texelAt b cw ch cw x y) (bitmap (drawCover ctx a cw ch) x y))) \<and>
         (0 < width b \<and> 0 < height b \<and> width b / height b \<le> cw / ch \<longrightarrow>
            sameFrame cw ch (compositeFrame ctx ''slide'' (Some a) (Some b) cw ch 0)
              (drawImageCover ctx (Some a) cw ch)) \<and>
         sameFrame cw ch (compositeFrame ctx ''zoom'' (Some a) (Some b) cw ch 1)
           (drawImageCover ctx (Some b) cw ch) \<and>
         (sameFrame cw ch (compositeFrame ctx ''fade'' (Some a) (Some b) cw ch 1)
              (drawImageCover ctx (Some b) cw ch) \<longleftrightarrow>
            (\<forall>x y. inFrame cw ch x y \<and>
                    bitmap (drawCover ctx a cw ch) x y \<noteq> bitmap ctx x y
                     \<longrightarrow> coversOpaquely b cw ch x y)) \<and>
         (sameFrame cw ch (compositeFrame ctx ''slide'' (Some a) (Some b) cw ch 1)
              (drawImageCover ctx (Some b) cw ch) \<longleftrightarrow>
            (\<forall>x y. inFrame cw ch x y \<and>
                    bitmap (drawCover (translate ctx (- cw) 0) a cw ch) x y \<noteq> bitmap ctx x y
                     \<longrightarrow> coversOpaquely b cw ch x y)) \<and>
         (opaque b \<and> 0 < width b \<and> 0 < height b \<longrightarrow>
            sameFrame cw ch (compositeFrame ctx ''fade'' (Some a) (Some b) cw ch 1)
              (drawImageCover ctx (Some b) cw ch) \<and>
            sameFrame cw ch (compositeFrame ctx ''slide'' (Some a) (Some b) cw ch 1)
              (drawImageCover ctx (Some b) cw ch)) \<and>
         (0 < width a \<and> 0 < height a \<and> width a / height a \<le> cw / ch \<longrightarrow>
            sameFrame cw ch (compositeFrame ctx ''slide'' (Some a) (Some b) cw ch 1)
              (drawImageCover ctx (Some b) cw ch))"
proof -
  have f1: "style = ''fade'' \<or> style = ''zoom'' \<longrightarrow>
      sameFrame cw ch (compositeFrame ctx style (Some a) (Some b) cw ch 0)
        (drawImageCover ctx (Some a) cw ch)"
    using fade_start [of cw ch ctx a b] zoom_start [OF assms(1), of cw ch a b] by blast
  have f3: "0 < width b \<and> 0 < height b \<and> width b / height b \<le> cw / ch \<longrightarrow>
      sameFrame cw ch (compositeFrame ctx ''slide'' (Some a) (Some b) cw ch 0)
        (drawImageCover ctx (Some a) cw ch)"
    using slide_start [OF assms, of b a] by blast
  have f7: "opaque b \<and> 0 < width b \<and> 0 < height b \<longrightarrow>
      sameFrame cw ch (compositeFrame ctx ''fade'' (Some a) (Some b) cw ch 1)
        (drawImageCover ctx (Some b) cw ch) \<and>
      sameFrame cw ch (compositeFrame ctx ''slide'' (Some a) (Some b) cw ch 1)
        (drawImageCover ctx (Some b) cw ch)"
    using fade_end [OF assms, of b a] slide_end [OF assms, of b a] by blast
  have f8: "0 < width a \<and> 0 < height a \<and> width a / height a \<le> cw / ch \<longrightarrow>
      sameFrame cw ch (compositeFrame ctx ''slide'' (Some a) (Some b) cw ch 1)
        (drawImageCover ctx (Some b) cw ch)"
    using slide_end_narrow_current [OF assms, of a b] by blast
  show ?thesis
    by (rule conjI f1 slide_start_iff [OF assms(1)] f3 zoom_end [OF assms(1)]
        fade_end_iff [OF assms(1)] slide_end_iff [OF assms(1)] f7 f8)+
qed

theorem C4_boundary_frames_witness:
  "plainState (clearFrame freshContext) \<and> (0::rat) < 1920 \<and> (0::rat) < 1080 \<and>
   opaque bluePicture \<and> 0 < width bluePicture \<and> 0 < height bluePicture \<and>
   width bluePicture / height bluePicture \<le> 1920 / 1080 \<and>
   0 < width redPicture \<and> 0 < height redPicture \<and>
   width redPicture / height redPicture \<le> 1920 / 1080 \<and>
   sameFrame 1920 1080
     (compositeFrame (clearFrame freshContext) ''fade'' (Some redPicture) (Some bluePicture)
        1920 1080 0)
     (drawImageCover (clearFrame freshContext) (Some redPicture) 1920 1080) \<and>
   sameFrame 1920 1080
     (compositeFrame (clearFrame freshContext) ''zoom'' (Some redPicture) (Some bluePicture)
        1920 1080 0)
     (drawImageCover (clearFrame freshContext) (Some redPicture) 1920 1080) \<and>
   sameFrame 1920 1080
     (compositeFrame (clearFrame freshContext) ''slide'' (Some redPicture) (Some bluePicture)
        1920 1080 0)
     (drawImageCover (clearFrame freshContext) (Some redPicture) 1920 1080) \<and>
   sameFrame 1920 1080
     (compositeFrame (clearFrame freshContext) ''zoom'' (Some redPicture) (Some bluePicture)
        1920 1080 1)
     (drawImageCover (clearFrame freshContext) (Some bluePicture) 1920 1080) \<and>
   sameFrame 1920 1080
     (compositeFrame (clearFrame freshContext) ''fade'' (Some redPicture) (Some bluePicture)
        1920 1080 1)
     (drawImageCover (clearFrame freshContext) (Some bluePicture) 1920 1080) \<and>
   sameFrame 1920 1080
     (compositeFrame (clearFrame freshContext) ''slide'' (Some redPicture) (Some bluePicture)
        1920 1080 1)
     (drawImageCover (clearFrame freshContext) (Some bluePicture) 1920 1080) \<and>
   sameFrame 1920 1080
     (compositeFrame (clearFrame freshContext) ''slide'' (Some redPicture) (Some blueGlass)
        1920 1080 1)
     (drawImageCover (clearFrame freshContext) (Some blueGlass) 1920 1080)"
proof -
  have p: "plainState (clearFrame freshContext)"
    by (rule clearFrame_plain [OF freshContext_plain])
  have q: "(0::rat) < 1920" "(0::rat) < 1080" by simp_all
  have b: "0 < width bluePicture \<and> 0 < height bluePicture \<and>
      width bluePicture / height bluePicture \<le> 1920 / 1080"
    by (simp add: sample_pictures)
  have r: "0 < width redPicture \<and> 0 < height redPicture \<and>
      width redPicture / height redPicture \<le> 1920 / 1080"
    by (simp add: sample_pictures)
  have ob: "opaque bluePicture \<and> 0 < width bluePicture \<and> 0 < height bluePicture"
    by (simp add: sample_pictures)
  note F = C4_boundary_frames [OF p q, of "''fade''" redPicture bluePicture]
  note Z = C4_boundary_frames [OF p q, of "''zoom''" redPicture bluePicture]
  note G = C4_boundary_frames [OF p q, of "''fade''" redPicture blueGlass]
  have w1: "sameFrame 1920 1080
     (compositeFrame (clearFrame freshContext) ''fade'' (Some redPicture) (Some bluePicture)
        1920 1080 0)
     (drawImageCover (clearFrame freshContext) (Some redPicture) 1920 1080)"
    using F by blast
  have w2: "sameFrame 1920 1080
     (compositeFrame (clearFrame freshContext) ''zoom'' (Some redPicture) (Some bluePicture)
        1920 1080 0)
     (drawImageCover (clearFrame freshContext) (Some redPicture) 1920 1080)"
    using Z by blast
  have w3: "sameFrame 1920 1080
     (compositeFrame (clearFrame freshContext) ''slide'' (Some redPicture) (Some bluePicture)
        1920 1080 0)
     (drawImageCover (clearFrame freshContext) (Some redPicture) 1920 1080)"
    using F b by blast
  have w4: "sameFrame 1920 1080
     (compositeFrame (clearFrame freshContext) ''zoom'' (Some redPicture) (Some bluePicture)
        1920 1080 1)
     (drawImageCover (clearFrame freshContext) (Some bluePicture) 1920 1080)"
    using F by blast
  have w5: "sameFrame 1920 1080
     (compositeFrame (clearFrame freshContext) ''fade'' (Some redPicture) (Some bluePicture)
        1920 1080 1)
     (drawImageCover (clearFrame freshContext) (Some bluePicture) 1920 1080)"
    using F ob by blast
  have w6: "sameFrame 1920 1080
     (compositeFrame (clearFrame freshContext) ''slide'' (Some redPicture) (Some bluePicture)
        1920 1080 1)
     (drawImageCover (clearFrame freshContext) (Some bluePicture) 1920 1080)"
    using F ob by blast
  have w7: "sameFrame 1920 1080
     (compositeFrame (clearFrame freshContext) ''slide'' (Some redPicture) (Some blueGlass)
        1920 1080 1)
     (drawImageCover (clearFrame freshContext) (Some blueGlass) 1920 1080)"
    using G r by blast
  show ?thesis
    using p b r ob w1 w2 w3 w4 w5 w6 w7 by simp
qed

subsection \<open>The render loop\<close>

lemma compositeFrame_defined:
  "\<exists>c. compositeFrame ctx style (Some a) (Some b) cw ch p = Inr c"
proof (cases "style = ''fade'' \<or> style = ''slide'' \<or> style = ''zoom''")
  case True
  then show ?thesis
    using compositeFrame_fade compositeFrame_slide compositeFrame_zoom by blast
next
  case False
  then show ?thesis by (simp add: compositeFrame_unknown)
qed

lemma paintFrame_defined:
  assumes "0 \<le> t" "of_int t < totalDuration P"
  shows "\<exists>c. paintFrame P t ctx = Inr c"
  unfolding paintFrame_running [OF assms]
  using compositeFrame_defined by (simp add: drawImageCover_def)

lemma renderFrame_running:
  assumes "0 \<le> t" "of_int t < totalDuration P"
  shows "\<exists>c. renderFrame P t s =
    s\<lparr>canvas := c, frames := frames s @ [bitmap c], pending := True\<rparr>"
proof -
  obtain c where "paintFrame P t (canvas s) = Inr c"
    using paintFrame_defined [OF assms] by blast
  then show ?thesis
    using assms(2) by (auto simp: renderFrame_def not_le)
qed

lemma renderFrame_finished:
  assumes "totalDuration P \<le> of_int t"
  shows "renderFrame P t s = s\<lparr>stopCalls := Suc (stopCalls s), pending := False\<rparr>"
  using assms by (simp add: renderFrame_def)

lemma runTicks_idle: "\<not> pending s \<Longrightarrow> runTicks P ts s = s"
  by (cases ts) simp_all

lemma runTicks_append: "runTicks P (xs @ ys) s = runTicks P ys (runTicks P xs s)"
  by (induction xs arbitrary: s) (simp_all add: runTicks_idle)

lemma runTicks_running:
  assumes "\<forall>u\<in>set pre. 0 \<le> u \<and> of_int u < totalDuration P" "pending s"
  shows "pending (runTicks P pre s) \<and> stopCalls (runTicks P pre s) = stopCalls s \<and>
         uncaught (runTicks P pre s) = uncaught s \<and>
         length (frames (runTicks P pre s)) = length (frames s) + length pre"
  using assms
proof (induction pre arbitrary: s)
  case Nil
  then show ?case by simp
next
  case (Cons u pre)
  from Cons.prems obtain c where
    r: "renderFrame P u s = s\<lparr>canvas := c, frames := frames s @ [bitmap c], pending := True\<rparr>"
    using renderFrame_running [of u P s] by auto
  have "pending (renderFrame P u s)" by (simp add: r)
  moreover have "\<forall>u\<in>set pre. 0 \<le> u \<and> of_int u < totalDuration P"
    using Cons.prems by simp
  ultimately show ?case
    using Cons.IH [of "renderFrame P u s"] Cons.prems(2) by (simp add: r)
qed

lemma runTicks_finalize:
  assumes "\<forall>u\<in>set pre. 0 \<le> u \<and> of_int u < totalDuration P" "pending s"
    "totalDuration P \<le> of_int t"
  shows "runTicks P (pre @ t # post) s =
    (runTicks P pre s)\<lparr>stopCalls := Suc (stopCalls s), pending := False\<rparr>"
proof -
  have p: "pending (runTicks P pre s)" "stopCalls (runTicks P pre s) = stopCalls s"
    using runTicks_running [OF assms(1,2)] by simp_all
  show ?thesis
    using p by (simp add: runTicks_append renderFrame_finished [OF assms(3)] runTicks_idle)
qed

text \<open>Claim C9: with a transition string other than \<open>fade\<close>, \<open>slide\<close> and \<open>zoom\<close>, a
  call of \<^verbatim>\<open>renderFrame\<close> that takes the transition branch clears the canvas to black,
  draws no picture and throws nothing: the frame it leaves is black at every point, and
  the next call is armed.\<close>

theorem C9_unknown_style_black:
  assumes "transition P \<noteq> ''fade''" "transition P \<noteq> ''slide''" "transition P \<noteq> ''zoom''"
    and "of_int t < totalDuration P"
    and "\<not> (imageDuration P \<noteq> 0 \<and>
            timeInCurrentImage P t < imageDuration P - transitionDuration)"
    and "plainState (canvas s)"
  shows "paintFrame P t (canvas s) = Inr (clearFrame (canvas s)) \<and>
         (\<forall>x y. inFrame canvas_width canvas_height x y \<longrightarrow>
                bitmap (clearFrame (canvas s)) x y = black) \<and>
         renderFrame P t s =
           s\<lparr>canvas := clearFrame (canvas s),
              frames := frames s @ [bitmap (clearFrame (canvas s))], pending := True\<rparr> \<and>
         uncaught (renderFrame P t s) = uncaught s"
proof -
  have p: "paintFrame P t (canvas s) = Inr (clearFrame (canvas s))"
    using assms(5) compositeFrame_unknown [OF assms(1,2,3)]
    by (auto simp: paintFrame_def Let_def)
  have r: "renderFrame P t s =
      s\<lparr>canvas := clearFrame (canvas s),
         frames := frames s @ [bitmap (clearFrame (canvas s))], pending := True\<rparr>"
    using assms(4) by (simp add: renderFrame_def p not_le)
  show ?thesis
    using clearFrame_black [OF assms(6)] by (simp add: p r)
qed

lemma wipeShow_simps:
  "imageDuration wipeShow = 3000" "totalDuration wipeShow = 6000"
  "transition wipeShow = ''wipe''"
  by (simp_all add: wipeShow_def imageDuration_def totalDuration_def)

theorem C9_unknown_style_black_witness:
  "transition wipeShow \<noteq> ''fade'' \<and> transition wipeShow \<noteq> ''slide'' \<and>
   transition wipeShow \<noteq> ''zoom'' \<and> of_int 2800 < totalDuration wipeShow \<and>
   \<not> (imageDuration wipeShow \<noteq> 0 \<and>
       timeInCurrentImage wipeShow 2800 < imageDuration wipeShow - transitionDuration) \<and>
   plainState (canvas startSession) \<and>
   paintFrame wipeShow 2800 (canvas startSession) = Inr (clearFrame (canvas startSession)) \<and>
   bitmap (clearFrame (canvas startSession)) 1000 0 = black \<and>
   frames (renderFrame wipeShow 2800 startSession) = [bitmap (clearFrame (canvas startSession))] \<and>
   uncaught (renderFrame wipeShow 2800 startSession) = None"
proof -
  have t: "timeInCurrentImage wipeShow 2800 = 2800"
    by (simp add: timeInCurrentImage_def wipeShow_simps jsRem_def jsTrunc_def floor_eq_iff)
  have c: "canvas startSession = freshContext" "frames startSession = []"
    "uncaught startSession = None"
    by (simp_all add: startSession_def)
  have f: "inFrame canvas_width canvas_height 1000 0"
    by (simp add: inFrame_def canvas_width_def canvas_height_def)
  show ?thesis
    using C9_unknown_style_black [of wipeShow 2800 startSession] f
    by (simp add: t c wipeShow_simps transitionDuration_def freshContext_plain)
qed

text \<open>Claim C8 as stated fails. A recorder that delivers no data: the session ends
  with \<^verbatim>\<open>isCreating\<close> false and \<^verbatim>\<open>videoUrl\<close> set to the URL of an empty blob, so the page
  offers the finished video. A recorder whose constructor throws: the exception leaves
  \<^verbatim>\<open>createVideo\<close> with \<^verbatim>\<open>isCreating\<close> still true, so the page shows the loading line and
  never leaves it.\<close>

theorem C8_counterexample:
  "recorded quietRecorder = [] \<and>
   createVideo quietRecorder (abc redPicture bluePicture redPicture) idleUi =
     (\<lparr>isCreating = False, videoUrl = Some []\<rparr>, None) \<and>
   showsVideo (fst (createVideo quietRecorder (abc redPicture bluePicture redPicture) idleUi)) \<and>
   recorderCtor noRecorder = Some NotSupportedError \<and>
   createVideo noRecorder (abc redPicture bluePicture redPicture) idleUi =
     (\<lparr>isCreating = True, videoUrl = None\<rparr>, Some NotSupportedError) \<and>
   showsLoading (fst (createVideo noRecorder (abc redPicture bluePicture redPicture) idleUi))"
proof -
  have "stopCalls (runTicks (abc redPicture bluePicture redPicture) ([0] @ 9000 # [])
      startSession) = Suc (stopCalls startSession)"
    by (subst runTicks_finalize) (simp_all add: abc_simps startSession_def)
  then have s: "0 < stopCalls (runTicks (abc redPicture bluePicture redPicture) [0, 9000]
      startSession)"
    by simp
  have q: "createVideo quietRecorder (abc redPicture bluePicture redPicture) idleUi =
     (\<lparr>isCreating = False, videoUrl = Some []\<rparr>, None)"
    using s by (simp add: createVideo_def quietRecorder_def idleUi_def abc_simps Let_def)
  have n: "createVideo noRecorder (abc redPicture bluePicture redPicture) idleUi =
     (\<lparr>isCreating = True, videoUrl = None\<rparr>, Some NotSupportedError)"
    by (simp add: createVideo_def noRecorder_def idleUi_def abc_simps Let_def)
  show ?thesis
    by (simp add: q n showsVideo_def showsLoading_def) (simp add: quietRecorder_def noRecorder_def)
qed

text \<open>Claim C8, amended: when \<^verbatim>\<open>new MediaRecorder\<close> or \<^verbatim>\<open>mediaRecorder.start()\<close> throws,
  the exception escapes \<^verbatim>\<open>createVideo\<close> and the component is left with \<^verbatim>\<open>isCreating\<close> true
  and no video URL; when the recorder runs to its stop but delivers no chunk of
  positive size, the session completes with the URL of an empty blob.\<close>

theorem C8_sink_failure:
  assumes "loadedImages P \<noteq> []" "canvasMounted env" "context2d env"
  shows "(recorderCtor env = Some e \<longrightarrow>
            createVideo env P u = (u\<lparr>isCreating := True, videoUrl := None\<rparr>, Some e)) \<and>
         (recorderCtor env = None \<and> recorderStart env = Some e \<longrightarrow>
            createVideo env P u = (u\<lparr>isCreating := True, videoUrl := None\<rparr>, Some e)) \<and>
         (recorderCtor env = None \<and> recorderStart env = None \<and> imagesDecode env \<and>
          0 < stopCalls (runTicks P (clock env) startSession) \<and>
          (\<forall>n\<in>set (recorded env). n = 0) \<longrightarrow>
            createVideo env P u = (u\<lparr>isCreating := False, videoUrl := Some []\<rparr>, None))"
proof -
  have "(\<forall>n\<in>set (recorded env). n = 0) \<Longrightarrow> filter (\<lambda>n. 0 < n) (recorded env) = []"
    by (simp add: filter_empty_conv)
  then show ?thesis
    using assms by (auto simp: createVideo_def Let_def)
qed

theorem C8_sink_failure_witness:
  "loadedImages (abc redPicture bluePicture redPicture) \<noteq> [] \<and>
   canvasMounted noRecorder \<and> context2d noRecorder \<and>
   recorderCtor noRecorder = Some NotSupportedError \<and>
   createVideo noRecorder (abc redPicture bluePicture redPicture) idleUi =
     (idleUi\<lparr>isCreating := True, videoUrl := None\<rparr>, Some NotSupportedError) \<and>
   canvasMounted quietRecorder \<and> context2d quietRecorder \<and>
   recorderCtor quietRecorder = None \<and> recorderStart quietRecorder = None \<and>
   imagesDecode quietRecorder \<and> recorded quietRecorder = [] \<and>
   0 < stopCalls (runTicks (abc redPicture bluePicture redPicture) (clock quietRecorder)
         startSession) \<and>
   createVideo quietRecorder (abc redPicture bluePicture redPicture) idleUi =
     (idleUi\<lparr>isCreating := False, videoUrl := Some []\<rparr>, None)"
proof -
  have "stopCalls (runTicks (abc redPicture bluePicture redPicture) ([0] @ 9000 # [])
      startSession) = Suc (stopCalls startSession)"
    by (subst runTicks_finalize) (simp_all add: abc_simps startSession_def)
  then have s: "0 < stopCalls (runTicks (abc redPicture bluePicture redPicture)
      (clock quietRecorder) startSession)"
    by (simp add: quietRecorder_def)
  have q: "canvasMounted quietRecorder" "context2d quietRecorder"
    "recorderCtor quietRecorder = None" "recorderStart quietRecorder = None"
    "imagesDecode quietRecorder" "recorded quietRecorder = []"
    by (simp_all add: quietRecorder_def)
  have n: "canvasMounted noRecorder" "context2d noRecorder"
    "recorderCtor noRecorder = Some NotSupportedError"
    by (simp_all add: noRecorder_def)
  show ?thesis
    using C8_sink_failure [of "abc redPicture bluePicture redPicture" noRecorder
        NotSupportedError idleUi]
      C8_sink_failure [of "abc redPicture bluePicture redPicture" quietRecorder
        NotSupportedError idleUi]
      s
    by (simp add: abc_simps q n del: runTicks.simps)
qed

subsection \<open>The drawing state between frames\<close>

text \<open>Every frame that is painted without an exception leaves the context in its plain
  drawing state, so every call of \<^verbatim>\<open>renderFrame\<close> of a session finds it there.\<close>

lemma drawImageCover_plain:
  assumes "plainState ctx" "drawImageCover ctx a cw ch = Inr c"
  shows "plainState c"
  using assms by (cases a) (auto simp: drawImageCover_def plainState_def ctx_fields)

lemma compositeFrame_plain:
  assumes "plainState ctx" "compositeFrame ctx style a b cw ch p = Inr c"
  shows "plainState c"
proof (cases a)
  case None
  then show ?thesis
    using assms by (auto simp: compositeFrame_def drawImageCover_def Let_def split: if_splits)
next
  case a: (Some i)
  show ?thesis
  proof (cases b)
    case None
    then show ?thesis
      using assms a
      by (auto simp: compositeFrame_def drawImageCover_def Let_def split: if_splits)
  next
    case b: (Some j)
    consider "style = ''fade''" | "style = ''slide''" | "style = ''zoom''"
      | "style \<noteq> ''fade''" "style \<noteq> ''slide''" "style \<noteq> ''zoom''"
      by blast
    then show ?thesis
    proof cases
      case 1
      then show ?thesis
        using assms unfolding a b by (auto simp: compositeFrame_fade plainState_def ctx_fields)
    next
      case 2
      define c1 where "c1 = drawCover (translate (save ctx) (- (cw * p)) 0) i cw ch"
      define c2 where "c2 = drawCover (translate (save (restore c1)) (cw - cw * p) 0) j cw ch"
      have s1: "stack c1 = cur ctx # stack ctx"
        by (simp add: c1_def ctx_fields)
      have s2: "stack c2 = cur ctx # stack (restore c1)"
        by (simp add: c2_def ctx_fields restore_pushed [OF s1])
      have "c = restore c2"
        using assms(2) unfolding a b 2 compositeFrame_slide c1_def c2_def by simp
      then show ?thesis
        using assms(1) by (simp add: plainState_def restore_pushed [OF s2])
    next
      case 3
      define c1 where "c1 = drawCover (setGlobalAlpha
               (translate (scale (translate (save ctx) (cw / 2) (ch / 2))
                  (1 + p * (3 / 10)) (1 + p * (3 / 10))) (- cw / 2) (- ch / 2))
               (1 - p)) i cw ch"
      have s1: "stack c1 = cur ctx # stack ctx"
        by (simp add: c1_def ctx_fields)
      have "c = setGlobalAlpha (drawCover (setGlobalAlpha (restore c1) p) j cw ch) 1"
        using assms(2) unfolding a b 3 compositeFrame_zoom c1_def by simp
      then show ?thesis
        using assms(1) by (simp add: plainState_def ctx_fields restore_pushed [OF s1])
    next
      case 4
      then show ?thesis
        using assms by (simp add: compositeFrame_unknown)
    qed
  qed
qed

lemma paintFrame_plain:
  assumes "plainState ctx" "paintFrame P t ctx = Inr c"
  shows "plainState c"
  using assms(2) drawImageCover_plain [OF clearFrame_plain [OF assms(1)]]
    compositeFrame_plain [OF clearFrame_plain [OF assms(1)]]
  by (auto simp: paintFrame_def Let_def split: if_splits)

lemma renderFrame_plain:
  assumes "plainState (canvas s)"
  shows "plainState (canvas (renderFrame P t s))"
  using assms paintFrame_plain [of "canvas s" P t]
  by (auto simp: renderFrame_def split: sum.splits)

lemma runTicks_plain:
  assumes "plainState (canvas s)"
  shows "plainState (canvas (runTicks P ts s))"
  using assms by (induction ts arbitrary: s) (simp_all add: renderFrame_plain)

lemma startSession_plain: "plainState (canvas (runTicks P ts startSession))"
  by (rule runTicks_plain) (simp add: startSession_def freshContext_plain)

section \<open>Where rounding decides\<close>

subsection \<open>The rounding function\<close>




















subsection \<open>Evaluating doubles\<close>

lemma floor_numeral_div:
  "\<lfloor>numeral a / numeral b :: rat\<rfloor> = numeral a div numeral b"
  by (metis floor_divide_of_int_eq of_int_numeral)

lemma ceiling_numeral_div:
  "\<lceil>numeral a / numeral b :: rat\<rceil> = - (- numeral a div numeral b)"
  by (metis ceiling_divide_eq_div of_int_numeral)

lemmas fl_eval = fl_def ilog2_def pow2_def roundEven_def bitLength.simps Let_def
  floor_numeral_div ceiling_numeral_div

subsection \<open>A duration of 1.1 seconds\<close>

text \<open>With three pictures and the duration 1.1 the code computes a total duration of
  \<open>3 * 1.1 * 1000 = 3300.0000000000005\<close> but a duration per picture of
  \<open>1.1 * 1000 = 1100\<close>. The call of \<^verbatim>\<open>renderFrame\<close> at \<open>t = 3300\<close> is the one the
  following three theorems evaluate.\<close>

lemma fractional_duration: "duration fractionalShow = 2476979795053773 / 2251799813685248"
  by (simp add: fractionalShow_def fl_eval)

lemma fractional_pictures:
  "loadedImages fractionalShow = [redPicture, bluePicture, redPicture]"
  "transition fractionalShow = ''fade''"
  by (simp_all add: fractionalShow_def)

lemma fractional_total: "totalDuration64 fractionalShow = 7256776743321601 / 2199023255552"
  by (simp add: totalDuration64_def fractional_duration fractional_pictures fl_eval)

lemma fractional_image: "imageDuration64 fractionalShow = 1100"
  by (simp add: imageDuration64_def fractional_duration fl_eval)

lemma fractional_3300:
  "currentIndex64 fractionalShow 3300 = 3" "nextIndex64 fractionalShow 3300 = 1"
  "timeInCurrentImage64 fractionalShow 3300 = 0"
  "fl (imageDuration64 fractionalShow - transitionDuration) = 600"
proof -
  show c: "currentIndex64 fractionalShow 3300 = 3"
    by (simp add: currentIndex64_def fractional_image fl_eval)
  show "nextIndex64 fractionalShow 3300 = 1"
    by (simp add: nextIndex64_def c fractional_pictures jsRemInt_def)
  show "timeInCurrentImage64 fractionalShow 3300 = 0"
    by (simp add: timeInCurrentImage64_def fractional_image jsRem_def jsTrunc_def)
  show "fl (imageDuration64 fractionalShow - transitionDuration) = 600"
    by (simp add: fractional_image transitionDuration_def fl_eval)
qed

lemma fractional_paint: "paintFrame64 fractionalShow 3300 ctx = Inl TypeError"
  by (simp add: paintFrame64_def Let_def fractional_image fractional_3300
      fractional_pictures imageAt_def drawImageCover_def transitionDuration_def fl_eval)

text \<open>Claim C1, at the input where the code departs from it. At \<open>t = 3300\<close> the call is
  not past the total duration, so the session is running; the current index is
  \<open>floor (3300 / 1100) = 3\<close> (with the duration per picture unrounded, a little above
  1100, the floor would be 2), the next index \<open>(3 + 1) mod 3 = 1\<close> and the time in the
  image \<open>3300 mod 1100 = 0 < 1100 - 500\<close>, so the branch that draws the current picture
  alone is taken. There is no picture 3: instead of rendering the current picture the
  call throws a \<^verbatim>\<open>TypeError\<close>.\<close>

theorem C1_fractional_duration:
  "of_int 3300 < totalDuration64 fractionalShow \<and>
   currentIndex64 fractionalShow 3300 = 3 \<and>
   \<lfloor>of_int 3300 / (duration fractionalShow * 1000)\<rfloor> = 2 \<and>
   nextIndex64 fractionalShow 3300 = 1 \<and>
   timeInCurrentImage64 fractionalShow 3300 = 0 \<and>
   timeInCurrentImage64 fractionalShow 3300
     < fl (imageDuration64 fractionalShow - transitionDuration) \<and>
   imageAt (loadedImages fractionalShow) (currentIndex64 fractionalShow 3300) = None \<and>
   paintFrame64 fractionalShow 3300 ctx = Inl TypeError"
  by (simp add: fractional_total fractional_3300 fractional_paint fractional_pictures
      imageAt_def fractional_duration floor_eq_iff)

text \<open>Claim C2, at the input where the code departs from it. The total duration
  \<open>3300.0000000000005\<close> is not the number of pictures times the duration per picture,
  \<open>3 * 1100 = 3300\<close>. So the call at \<open>t = 3300\<close>, the end of the last picture, does not
  stop the recorder, in whatever state the running session is: it throws, no further
  call is armed, and the recorder is never stopped, whatever the later samples are.\<close>

theorem C2_fractional_duration:
  "totalDuration64 fractionalShow = 7256776743321601 / 2199023255552 \<and>
   imageDuration64 fractionalShow = 1100 \<and>
   fl (of_nat (length (loadedImages fractionalShow)) * imageDuration64 fractionalShow) = 3300 \<and>
   totalDuration64 fractionalShow \<noteq>
     fl (of_nat (length (loadedImages fractionalShow)) * imageDuration64 fractionalShow) \<and>
   renderFrame64 fractionalShow 3300 (s\<lparr>pending := True\<rparr>) =
     s\<lparr>pending := False, uncaught := Some TypeError\<rparr> \<and>
   runTicks64 fractionalShow (3300 # later) (s\<lparr>pending := True\<rparr>) =
     s\<lparr>pending := False, uncaught := Some TypeError\<rparr> \<and>
   stopCalls (runTicks64 fractionalShow (3300 # later) (s\<lparr>pending := True\<rparr>)) =
     stopCalls s"
proof -
  have r: "renderFrame64 fractionalShow 3300 (s\<lparr>pending := True\<rparr>) =
      s\<lparr>pending := False, uncaught := Some TypeError\<rparr>"
    by (simp add: renderFrame64_def fractional_total fractional_paint)
  have t: "runTicks64 fractionalShow (3300 # later) (s\<lparr>pending := True\<rparr>) =
      s\<lparr>pending := False, uncaught := Some TypeError\<rparr>"
    by (cases later) (simp_all add: r)
  have n: "fl (of_nat (length (loadedImages fractionalShow)) * imageDuration64 fractionalShow)
      = 3300"
    by (simp add: fractional_image fractional_pictures fl_eval)
  show ?thesis
    unfolding t r n by (simp add: fractional_total fractional_image)
qed

text \<open>Claim C10, at the input where the code departs from it. There are three pictures
  and the duration per picture is positive; \<open>t = 3300\<close> is below three times the
  unrounded duration per picture and the call passes the guard of \<^verbatim>\<open>renderFrame\<close>, so it
  renders, and its current index is 3, the length of the list: the
  read of \<^verbatim>\<open>loadedImages\<close> is out of bounds.\<close>

theorem C10_fractional_duration:
  "1 \<le> length (loadedImages fractionalShow) \<and> 0 < imageDuration64 fractionalShow \<and>
   (0::int) \<le> 3300 \<and> \<not> of_int 3300 \<ge> totalDuration64 fractionalShow \<and>
   of_int 3300 < of_nat (length (loadedImages fractionalShow))
                   * (duration fractionalShow * 1000) \<and>
   currentIndex64 fractionalShow 3300 = int (length (loadedImages fractionalShow)) \<and>
   imageAt (loadedImages fractionalShow) (currentIndex64 fractionalShow 3300) = None"
  by (simp add: fractional_total fractional_image fractional_3300 fractional_pictures
      imageAt_def fractional_duration)

subsection \<open>Cover fitting in doubles\<close>





end
